theory Spec2Isabelle
  imports Main "HOL-Library.AList"
begin

unbundle bit_operations_syntax

section \<open>Data model\<close>

text \<open>
  The configuration of \<^verbatim>\<open>modules/asic.py\<close> is a Python dictionary of blocks; each
  block is a dictionary from a field name to the two-element list \<^verbatim>\<open>[width, value]\<close>.
  Dictionaries keep their insertion order, which fixes the position of a field in the
  scan chain, so both levels are association lists. Python integers are unbounded:
  widths, values, rows and columns are \<^typ>\<open>int\<close>.

  The methods of \<^verbatim>\<open>modules/asic.py\<close> change a field by assigning to slot \<^verbatim>\<open>[1]\<close> of its
  list, in place, and a YAML file with anchors and aliases is loaded with several keys
  holding one and the same list object. A block of an \<^verbatim>\<open>Asic\<close> object therefore maps a
  field name to a reference, and the list objects live in a store: the reference is an
  index into it. The dictionaries are never changed by these methods (no key is added,
  removed or rebound), so sharing between dictionaries cannot be observed and they are
  plain values. Python has no dangling reference: the states of the program are those
  whose references all lie below the length of the store.
\<close>

datatype py_error = KeyError | TypeError | ValueError | RuntimeError

datatype 'a outcome = Returned 'a | Raised py_error

type_synonym field = "int \<times> int"
type_synonym block = "(string \<times> field) list"
type_synonym config = "(string \<times> block) list"

type_synonym ref = nat
type_synonym rblock = "(string \<times> ref) list"
type_synonym rconfig = "(string \<times> rblock) list"

text \<open>A \<^verbatim>\<open>BitArray\<close> is its sequence of bits, the first bit at the head.\<close>

type_synonym bitarray = "bool list"

text \<open>
  Records emitted through the \<^verbatim>\<open>logging\<close> module: an \<^verbatim>\<open>info\<close> record with its text, and
  the warning of \<^verbatim>\<open>asic_init\<close> about a bad DAC key, which prints the whole \<^verbatim>\<open>dac_setup\<close>.
\<close>

datatype log_record =
    LogInfo string
  | LogWarningBadDAC "(string \<times> int) list"

record asic =
  num_rows :: int
  num_cols :: int
  asic_config :: "rconfig option"
  store :: "field list"
  logged :: "log_record list"

section \<open>Encoding a field: \<^verbatim>\<open>Asic.__int2nbit\<close>\<close>

text \<open>
  \<^verbatim>\<open>BitArray(uint=value, length=nbits)\<close> of the bitstring library: the \<open>nbits\<close> low bits
  of \<open>value\<close>, most significant first. The constructor raises \<^verbatim>\<open>CreationError\<close>, a
  subclass of \<^verbatim>\<open>ValueError\<close>, when the length is not positive, when the value needs
  more than \<open>nbits\<close> bits and when the value is negative.
\<close>

fun uint_bits :: "nat \<Rightarrow> int \<Rightarrow> bitarray" where
  "uint_bits 0 v = []"
| "uint_bits (Suc n) v = uint_bits n (v div 2) @ [odd v]"

definition BitArray_uint :: "int \<Rightarrow> int \<Rightarrow> py_error + bitarray" where
  "BitArray_uint val nbits =
     (if nbits \<le> 0 then Inl ValueError
      else if 2 ^ nat nbits \<le> val then Inl ValueError
      else if val < 0 then Inl ValueError
      else Inr (uint_bits (nat nbits) val))"

text \<open>
  \<^verbatim>\<open>__int2nbit\<close> catches the \<^verbatim>\<open>ValueError\<close>, prints the allowed range and falls off
  the end of the function: the caller receives Python's \<^verbatim>\<open>None\<close>, here \<^term>\<open>None\<close>.
\<close>

definition int2nbit :: "int \<Rightarrow> int \<Rightarrow> bitarray option" where
  "int2nbit val nbits =
     (case BitArray_uint val nbits of Inr b \<Rightarrow> Some b | Inl e \<Rightarrow> None)"

text \<open>
  The unsigned reading of a bit array (the \<^verbatim>\<open>uint\<close> property of a \<^verbatim>\<open>BitArray\<close>), most
  significant bit first: the decoder against which the encoding is checked.
\<close>

definition uint_of :: "bitarray \<Rightarrow> int" where
  "uint_of bs = foldl (\<lambda>a b. 2 * a + (if b then 1 else 0)) 0 bs"

section \<open>The serializer: \<^verbatim>\<open>Asic.gen_asic_vector\<close>\<close>

text \<open>
  The inner loop appends \<^verbatim>\<open>__int2nbit(values[1], values[0])\<close> for every field of a
  block. When \<^verbatim>\<open>__int2nbit\<close> has returned \<^verbatim>\<open>None\<close>, what \<^verbatim>\<open>bitvector.append(None)\<close>
  does is the bitstring library's business (releases before 4 append nothing, later
  ones raise \<^verbatim>\<open>TypeError\<close>), so it is the parameter \<open>on_none\<close>.
\<close>

fun append_fields ::
  "(bitarray \<Rightarrow> py_error + bitarray) \<Rightarrow> field list \<Rightarrow> bitarray \<Rightarrow> py_error + bitarray" where
  "append_fields on_none [] bv = Inr bv"
| "append_fields on_none (f # fs) bv =
     (case int2nbit (snd f) (fst f) of
        Some b \<Rightarrow> append_fields on_none fs (bv @ b)
      | None \<Rightarrow> (case on_none bv of
                   Inl e \<Rightarrow> Inl e
                 | Inr bv' \<Rightarrow> append_fields on_none fs bv'))"

text \<open>
  The outer loop, \<^verbatim>\<open>for key in self.asic_config\<close>: the keys of a dictionary are
  distinct, so \<^verbatim>\<open>self.asic_config[key]\<close> is the block stored with \<open>key\<close>; its
  \<^verbatim>\<open>values()\<close> are the list objects its references point to, read from the store.
\<close>

fun append_blocks ::
  "(bitarray \<Rightarrow> py_error + bitarray) \<Rightarrow> field list \<Rightarrow> rconfig \<Rightarrow> bitarray
     \<Rightarrow> py_error + bitarray" where
  "append_blocks on_none st [] bv = Inr bv"
| "append_blocks on_none st (kb # rest) bv =
     (case append_fields on_none (map (\<lambda>kr. st ! snd kr) (snd kb)) bv of
        Inl e \<Rightarrow> Inl e
      | Inr bv' \<Rightarrow> append_blocks on_none st rest bv')"

definition gen_asic_vector ::
  "(bitarray \<Rightarrow> py_error + bitarray) \<Rightarrow> asic \<Rightarrow> bool \<Rightarrow> py_error + bitarray" where
  "gen_asic_vector on_none s msbfirst =
     (case asic_config s of
        None \<Rightarrow> Inl TypeError
      | Some cfg \<Rightarrow>
          (case append_blocks on_none (store s) cfg [] of
             Inl e \<Rightarrow> Inl e
           | Inr bv \<Rightarrow> Inr (if \<not> msbfirst then rev bv else bv)))"

text \<open>
  The configuration as a value: every reference replaced by the \<^verbatim>\<open>[width, value]\<close> it
  points to.
\<close>

definition config_view :: "asic \<Rightarrow> config option" where
  "config_view s =
     map_option
       (map (\<lambda>kb. (fst kb, map (\<lambda>kr. (fst kr, store s ! snd kr)) (snd kb))))
       (asic_config s)"

text \<open>
  A field is valid when its width is at least one bit and its value fits the width; a
  configuration is valid when all its fields are.
\<close>

definition valid_field :: "field \<Rightarrow> bool" where
  "valid_field f = (0 < fst f \<and> 0 \<le> snd f \<and> snd f < 2 ^ nat (fst f))"

definition valid_config :: "config \<Rightarrow> bool" where
  "valid_config cfg = list_all (\<lambda>kb. list_all (\<lambda>kf. valid_field (snd kf)) (snd kb)) cfg"

text \<open>The sum of the widths of all fields of all blocks; it does not read any value.\<close>

definition total_width :: "config \<Rightarrow> int" where
  "total_width cfg = sum_list (map (\<lambda>kb. sum_list (map (\<lambda>kf. fst (snd kf)) (snd kb))) cfg)"

text \<open>The bits a valid field contributes to the vector.\<close>

definition field_bits :: "field \<Rightarrow> bitarray" where
  "field_bits f = uint_bits (nat (fst f)) (snd f)"

section \<open>The per-column receiver words\<close>

text \<open>
  The key of a column word is the f-string \<^verbatim>\<open>f'col{i}'\<close>: the text \<^verbatim>\<open>col\<close> followed by
  Python's decimal rendering of the integer.
\<close>

definition digit_char :: "nat \<Rightarrow> char" where
  "digit_char d = char_of (48 + d)"

fun str_nat :: "nat \<Rightarrow> string" where
  "str_nat n = (if n < 10 then [digit_char n] else str_nat (n div 10) @ [digit_char (n mod 10)])"

declare str_nat.simps [simp del]

definition str_int :: "int \<Rightarrow> string" where
  "str_int i = (if i < 0 then CHR ''-'' # str_nat (nat (- i)) else str_nat (nat i))"

definition col_key :: "int \<Rightarrow> string" where
  "col_key i = ''col'' @ str_int i"

text \<open>Sequencing of computations that may raise.\<close>

definition then_do :: "py_error + 'a \<Rightarrow> ('a \<Rightarrow> py_error + 'b) \<Rightarrow> py_error + 'b" where
  "then_do r f = (case r of Inl e \<Rightarrow> Inl e | Inr x \<Rightarrow> f x)"

text \<open>Python's \<^verbatim>\<open>a << n\<close>: a negative shift count raises \<^verbatim>\<open>ValueError\<close>.\<close>

definition py_lshift :: "int \<Rightarrow> int \<Rightarrow> py_error + int" where
  "py_lshift a n = (if n < 0 then Inl ValueError else Inr (push_bit (nat n) a))"

text \<open>
  \<^verbatim>\<open>self.asic_config['recconfig']\<close>: subscripting \<^verbatim>\<open>None\<close> (no configuration loaded) is
  a \<^verbatim>\<open>TypeError\<close>, a configuration without the block a \<^verbatim>\<open>KeyError\<close>.
\<close>

definition recconfig :: "asic \<Rightarrow> py_error + rblock" where
  "recconfig s =
     (case asic_config s of
        None \<Rightarrow> Inl TypeError
      | Some cfg \<Rightarrow> (case map_of cfg ''recconfig'' of None \<Rightarrow> Inl KeyError | Some rc \<Rightarrow> Inr rc))"

text \<open>
  \<^verbatim>\<open>self.asic_config['recconfig'].get(key, 0b001_..._11110)[1]\<close> and
  \<^verbatim>\<open>self.asic_config['recconfig'].get(key)[1]\<close>: for a missing key \<^verbatim>\<open>get\<close> returns the
  integer default (or \<^verbatim>\<open>None\<close>), which cannot be subscripted: \<^verbatim>\<open>TypeError\<close>. For a key
  that is there, slot \<^verbatim>\<open>[1]\<close> of its list object is read.
\<close>

definition recconfig_get :: "asic \<Rightarrow> string \<Rightarrow> py_error + int" where
  "recconfig_get s key =
     then_do (recconfig s)
       (\<lambda>rc. case map_of rc key of
               None \<Rightarrow> Inl TypeError
             | Some r \<Rightarrow> Inr (snd (store s ! r)))"

text \<open>\<^verbatim>\<open>self.asic_config['recconfig'][key][1]\<close>, read: a missing key is a \<^verbatim>\<open>KeyError\<close>.\<close>

definition recconfig_item :: "asic \<Rightarrow> string \<Rightarrow> py_error + int" where
  "recconfig_item s key =
     then_do (recconfig s)
       (\<lambda>rc. case map_of rc key of
               None \<Rightarrow> Inl KeyError
             | Some r \<Rightarrow> Inr (snd (store s ! r)))"

text \<open>
  The assignment statement \<^verbatim>\<open>self.asic_config['recconfig'][key][1] = rhs\<close>: Python
  evaluates the right-hand side first and then the target; whatever raises leaves the
  model as it was. The assignment overwrites slot \<^verbatim>\<open>[1]\<close> of the list object the key
  refers to, and with it the value seen through every other key that refers to the
  same object; slot \<^verbatim>\<open>[0]\<close>, the width, is kept.
\<close>

definition assign_col :: "asic \<Rightarrow> string \<Rightarrow> py_error + int \<Rightarrow> unit outcome \<times> asic" where
  "assign_col s key rhs =
     (case rhs of
        Inl e \<Rightarrow> (Raised e, s)
      | Inr v \<Rightarrow>
          (case recconfig s of
             Inl e \<Rightarrow> (Raised e, s)
           | Inr rc \<Rightarrow>
               (case map_of rc key of
                  None \<Rightarrow> (Raised KeyError, s)
                | Some r \<Rightarrow>
                    (Returned (), s\<lparr>store := (store s)[r := (fst (store s ! r), v)]\<rparr>))))"

section \<open>The pixel operations of \<^verbatim>\<open>modules/asic.py\<close>\<close>

text \<open>
  The mask literals of the source, 38 binary digits each:
  \<^verbatim>\<open>0b000_0...0_00001\<close> is \<open>1\<close>, \<^verbatim>\<open>0b010_0...0\<close> is \<open>2 ^ 36\<close>, \<^verbatim>\<open>0b100_0...0\<close> is
  \<open>2 ^ 37\<close>, \<^verbatim>\<open>0b011_1...1\<close> is \<open>2 ^ 37 - 1\<close>, \<^verbatim>\<open>0b111_1...1_11110\<close> is \<open>2 ^ 38 - 2\<close>,
  \<^verbatim>\<open>0b101_1...1\<close> is \<open>2 ^ 38 - 1 - 2 ^ 36\<close> and the default word
  \<^verbatim>\<open>0b001_1...1_11110\<close> is \<open>2 ^ 36 - 2\<close>.
\<close>

definition enable_inj_row :: "asic \<Rightarrow> int \<Rightarrow> unit outcome \<times> asic" where
  "enable_inj_row s row =
     (if row < num_rows s
      then assign_col s (col_key row)
             (then_do (recconfig_get s (col_key row)) (\<lambda>v. Inr (v OR 1)))
      else (Returned (), s))"

definition enable_inj_col :: "asic \<Rightarrow> int \<Rightarrow> unit outcome \<times> asic" where
  "enable_inj_col s col =
     (if col < num_cols s
      then assign_col s (col_key col)
             (then_do (recconfig_get s (col_key col)) (\<lambda>v. Inr (v OR 2 ^ 36)))
      else (Returned (), s))"

text \<open>
  The two literals of \<^verbatim>\<open>enable_ampout_col\<close>: \<^verbatim>\<open>0b011_11111_..._11111\<close> keeps bits 0 to 36,
  \<^verbatim>\<open>0b100_00000_..._00000\<close> is bit 37, the analog-mux select bit.
\<close>

definition ampout_keep :: int where
  "ampout_keep = 2 ^ 37 - 1"

definition ampout_bit :: int where
  "ampout_bit = 2 ^ 37"

text \<open>The loop \<^verbatim>\<open>for i in range(self.num_cols)\<close> of \<^verbatim>\<open>enable_ampout_col\<close>.\<close>

fun ampout_clear :: "int list \<Rightarrow> asic \<Rightarrow> unit outcome \<times> asic" where
  "ampout_clear [] s = (Returned (), s)"
| "ampout_clear (i # rest) s =
     (case assign_col s (col_key i)
             (then_do (recconfig_item s (col_key i)) (\<lambda>v. Inr (v AND ampout_keep))) of
        (Raised e, s') \<Rightarrow> (Raised e, s')
      | (Returned u, s') \<Rightarrow> ampout_clear rest s')"

definition enable_ampout_col :: "asic \<Rightarrow> int \<Rightarrow> unit outcome \<times> asic" where
  "enable_ampout_col s col =
     (case ampout_clear [0..num_cols s - 1] s of
        (Raised e, s') \<Rightarrow> (Raised e, s')
      | (Returned u, s') \<Rightarrow>
          assign_col s' (col_key col)
            (then_do (recconfig_item s' (col_key col)) (\<lambda>v. Inr (v OR ampout_bit))))"

definition enable_pixel :: "asic \<Rightarrow> int \<Rightarrow> int \<Rightarrow> unit outcome \<times> asic" where
  "enable_pixel s col row =
     (if row < num_rows s \<and> col < num_cols s
      then assign_col s (col_key col)
             (then_do (recconfig_get s (col_key col))
                (\<lambda>v. then_do (py_lshift 2 row) (\<lambda>m. Inr (v AND NOT m))))
      else (Returned (), s))"

definition disable_pixel :: "asic \<Rightarrow> int \<Rightarrow> int \<Rightarrow> unit outcome \<times> asic" where
  "disable_pixel s col row =
     (if row < num_rows s \<and> col < num_cols s
      then assign_col s (col_key col)
             (then_do (recconfig_get s (col_key col))
                (\<lambda>v. then_do (py_lshift 2 row) (\<lambda>m. Inr (v OR m))))
      else (Returned (), s))"

definition disable_inj_row :: "asic \<Rightarrow> int \<Rightarrow> unit outcome \<times> asic" where
  "disable_inj_row s row =
     (if row < num_rows s
      then assign_col s (col_key row)
             (then_do (recconfig_get s (col_key row)) (\<lambda>v. Inr (v AND (2 ^ 38 - 2))))
      else (Returned (), s))"

definition disable_inj_col :: "asic \<Rightarrow> int \<Rightarrow> unit outcome \<times> asic" where
  "disable_inj_col s col =
     (if col < num_cols s
      then assign_col s (col_key col)
             (then_do (recconfig_get s (col_key col)) (\<lambda>v. Inr (v AND (2 ^ 38 - 1 - 2 ^ 36))))
      else (Returned (), s))"

text \<open>
  \<^verbatim>\<open>get_pixel\<close> has no \<^verbatim>\<open>else\<close> branch for its only guard, \<^verbatim>\<open>row < self.num_rows\<close>: for
  other rows it falls off the end and returns Python's \<^verbatim>\<open>None\<close>.
\<close>

definition get_pixel :: "asic \<Rightarrow> int \<Rightarrow> int \<Rightarrow> bool option outcome \<times> asic" where
  "get_pixel s col row =
     (if row < num_rows s
      then (case then_do (recconfig_get s (col_key col))
                   (\<lambda>v. then_do (py_lshift 1 (row + 1)) (\<lambda>m. Inr (v AND m))) of
              Inl e \<Rightarrow> (Raised e, s)
            | Inr x \<Rightarrow> (Returned (Some (if x \<noteq> 0 then False else True)), s))
      else (Returned None, s))"

text \<open>
  The reference held under a key of the receiver block, and the column word it points
  to, \<open>(width, value)\<close>, if the key is there.
\<close>

definition word_ref :: "asic \<Rightarrow> string \<Rightarrow> ref option" where
  "word_ref s key =
     (case recconfig s of
        Inl e \<Rightarrow> None
      | Inr rc \<Rightarrow>
          (case map_of rc key of
             None \<Rightarrow> None
           | Some r \<Rightarrow> if r < length (store s) then Some r else None))"

definition col_word :: "asic \<Rightarrow> string \<Rightarrow> field option" where
  "col_word s key = map_option (\<lambda>r. store s ! r) (word_ref s key)"

text \<open>
  The receiver block matches the geometry when its keys, pairwise distinct as the keys
  of a dictionary are, are exactly \<^verbatim>\<open>col0\<close> \<dots> \<^verbatim>\<open>col(num_cols - 1)\<close>. Its column words
  are unshared when every key holds a list object of its own: the references are
  pairwise distinct, and each denotes an object of the store.
\<close>

definition recconfig_in_geometry :: "asic \<Rightarrow> bool" where
  "recconfig_in_geometry s =
     (case recconfig s of
        Inl e \<Rightarrow> False
      | Inr rc \<Rightarrow> distinct (map fst rc)
                 \<and> set (map fst rc) = set (map col_key [0..num_cols s - 1]))"

definition words_unshared :: "asic \<Rightarrow> bool" where
  "words_unshared s =
     (case recconfig s of
        Inl e \<Rightarrow> False
      | Inr rc \<Rightarrow> distinct (map snd rc) \<and> list_all (\<lambda>kr. snd kr < length (store s)) rc)"

section \<open>Auxiliary notions for the statements about column words\<close>

text \<open>
  The state after slot \<^verbatim>\<open>[1]\<close> of the list object \<open>r\<close> has been overwritten; the references
  held by the receiver block; the store after bit 37 has been cleared in the objects
  \<open>R\<close>; and the store after \<^verbatim>\<open>enable_ampout_col\<close>: bit 37 cleared in the objects \<open>R\<close> and
  then set in the object \<open>r\<close>.
\<close>

definition set_word :: "asic \<Rightarrow> ref \<Rightarrow> int \<Rightarrow> asic" where
  "set_word s r x = s\<lparr>store := (store s)[r := (fst (store s ! r), x)]\<rparr>"

definition column_refs :: "asic \<Rightarrow> ref set" where
  "column_refs s = (case recconfig s of Inl e \<Rightarrow> {} | Inr rc \<Rightarrow> set (map snd rc))"

definition clear_store :: "ref set \<Rightarrow> field list \<Rightarrow> field list" where
  "clear_store R st =
     map (\<lambda>j. if j \<in> R then (fst (st ! j), snd (st ! j) AND ampout_keep) else st ! j)
       [0..<length st]"

definition ampout_store :: "ref set \<Rightarrow> ref \<Rightarrow> field list \<Rightarrow> field list" where
  "ampout_store R r st =
     (clear_store R st)[r := (fst (st ! r), (snd (st ! r) AND ampout_keep) OR ampout_bit)]"

section \<open>Run control: \<^verbatim>\<open>astropix.py\<close>\<close>

text \<open>
  What a session does to the outside world, in order: calls on the FPGA and records
  sent to the logger.
\<close>

datatype event = ChipReset | AsicUpdate config | Log log_record

text \<open>
  The part of an \<^verbatim>\<open>astropixRun\<close> object the configuration methods use: the flag
  \<^verbatim>\<open>_asic_start\<close>, the dictionary \<^verbatim>\<open>self.asic.asic_config\<close> and the events so far. The
  object is one created with \<^verbatim>\<open>offline=False\<close>: only then does \<^verbatim>\<open>__init__\<close> set the flag.
  The configuration of a session is kept as a value: the statements below are about
  configurations loaded from a file without aliases, where every field is a list
  object of its own.
\<close>

record astropixRun =
  asic_start :: bool
  run_config :: config
  events :: "event list"

definition emit :: "event \<Rightarrow> astropixRun \<Rightarrow> astropixRun" where
  "emit ev r = r\<lparr>events := events r @ [ev]\<rparr>"

text \<open>
  Modelled from the spec: \<^verbatim>\<open>asic_update\<close> calls \<^verbatim>\<open>self.nexys.chip_reset()\<close> and
  \<^verbatim>\<open>self.asic.asic_update()\<close>, both of \<^verbatim>\<open>core/\<close>, which is not part of the sources at hand.
  Following the spec's description of a push (reset the transport-side state, serialize
  the current configuration, hand it to the transport) the two calls are recorded as
  events, the second with the configuration it serializes.
\<close>

definition asic_update :: "astropixRun \<Rightarrow> astropixRun" where
  "asic_update r = emit (AsicUpdate (run_config r)) (emit ChipReset r)"

text \<open>
  \<^verbatim>\<open>self.asic.asic_config[blk][key][1] = v\<close>: both subscripts raise \<^verbatim>\<open>KeyError\<close> on a
  missing key; otherwise the value slot of the field is overwritten in place and its
  width is kept.
\<close>

definition config_store :: "config \<Rightarrow> string \<Rightarrow> string \<Rightarrow> int \<Rightarrow> py_error + config" where
  "config_store cfg blk key v =
     (case map_of cfg blk of
        None \<Rightarrow> Inl KeyError
      | Some b \<Rightarrow>
          (case map_of b key of
             None \<Rightarrow> Inl KeyError
           | Some f \<Rightarrow> Inr (AList.update blk (AList.update key (fst f, v) b) cfg)))"

text \<open>
  One loop of \<^verbatim>\<open>update_asic_config\<close>,
  \<^verbatim>\<open>for key in cfg: self.asic.asic_config[blk][key][1] = cfg[key]\<close>. A missing block or
  key raises \<^verbatim>\<open>KeyError\<close>; the values written before it stay written.
\<close>

fun update_block :: "string \<Rightarrow> (string \<times> int) list \<Rightarrow> config \<Rightarrow> py_error option \<times> config" where
  "update_block blk [] cfg = (None, cfg)"
| "update_block blk (kv # rest) cfg =
     (case config_store cfg blk (fst kv) (snd kv) of
        Inl e \<Rightarrow> (Some e, cfg)
      | Inr cfg' \<Rightarrow> update_block blk rest cfg')"

text \<open>The guard \<^verbatim>\<open>if x_cfg is not None\<close> around such a loop.\<close>

definition update_block_opt ::
  "string \<Rightarrow> (string \<times> int) list option \<Rightarrow> config \<Rightarrow> py_error option \<times> config" where
  "update_block_opt blk upd cfg =
     (case upd of None \<Rightarrow> (None, cfg) | Some kvs \<Rightarrow> update_block blk kvs cfg)"

text \<open>
  \<^verbatim>\<open>update_asic_config(bias_cfg, idac_cfg, vdac_cfg)\<close>. The \<^verbatim>\<open>else\<close> of the source belongs
  to \<^verbatim>\<open>if vdac_cfg is not None\<close> alone: whenever \<^verbatim>\<open>vdac_cfg\<close> is \<^verbatim>\<open>None\<close> the method logs
  that it got no arguments and returns before \<^verbatim>\<open>self.asic_update()\<close>.
\<close>

definition update_asic_config ::
  "astropixRun \<Rightarrow> (string \<times> int) list option \<Rightarrow> (string \<times> int) list option
     \<Rightarrow> (string \<times> int) list option \<Rightarrow> unit outcome \<times> astropixRun" where
  "update_asic_config r bias_cfg idac_cfg vdac_cfg =
     (if asic_start r then
        (case update_block_opt ''biasconfig'' bias_cfg (run_config r) of
           (Some e, c1) \<Rightarrow> (Raised e, r\<lparr>run_config := c1\<rparr>)
         | (None, c1) \<Rightarrow>
             (case update_block_opt ''idacs'' idac_cfg c1 of
                (Some e, c2) \<Rightarrow> (Raised e, r\<lparr>run_config := c2\<rparr>)
              | (None, c2) \<Rightarrow>
                  (case vdac_cfg of
                     Some kvs \<Rightarrow>
                       (case update_block ''vdacs'' kvs c2 of
                          (Some e, c3) \<Rightarrow> (Raised e, r\<lparr>run_config := c3\<rparr>)
                        | (None, c3) \<Rightarrow> (Returned (), asic_update (r\<lparr>run_config := c3\<rparr>)))
                   | None \<Rightarrow>
                       (Returned (),
                        emit (Log (LogInfo ''update_asic_config() got no arguments, nothing to do.''))
                          (r\<lparr>run_config := c2\<rparr>)))))
      else (Raised RuntimeError, r))"

text \<open>
  The loop of \<^verbatim>\<open>asic_init\<close> that sorts \<^verbatim>\<open>dac_setup\<close>: a key of the \<^verbatim>\<open>idacs\<close> block replaces
  \<^verbatim>\<open>idac_setup\<close> by the one-entry dictionary \<^verbatim>\<open>{k: dac_setup[k]}\<close>, a key of the \<^verbatim>\<open>vdacs\<close>
  block does the same to \<^verbatim>\<open>vdac_setup\<close>, any other key ends \<^verbatim>\<open>asic_init\<close> (result
  \<^term>\<open>None\<close>). Subscripting a configuration without the block raises \<^verbatim>\<open>KeyError\<close>.
\<close>

fun sort_dac_setup ::
  "config \<Rightarrow> (string \<times> int) list \<Rightarrow> (string \<times> int) list option \<Rightarrow> (string \<times> int) list option
     \<Rightarrow> py_error + ((string \<times> int) list option \<times> (string \<times> int) list option) option" where
  "sort_dac_setup cfg [] idac_setup vdac_setup = Inr (Some (idac_setup, vdac_setup))"
| "sort_dac_setup cfg (kv # rest) idac_setup vdac_setup =
     (case map_of cfg ''idacs'' of
        None \<Rightarrow> Inl KeyError
      | Some idacs \<Rightarrow>
          if map_of idacs (fst kv) \<noteq> None
          then sort_dac_setup cfg rest (Some [kv]) vdac_setup
          else (case map_of cfg ''vdacs'' of
                  None \<Rightarrow> Inl KeyError
                | Some vdacs \<Rightarrow>
                    if map_of vdacs (fst kv) \<noteq> None
                    then sort_dac_setup cfg rest idac_setup (Some [kv])
                    else Inr None))"

text \<open>
  \<^verbatim>\<open>asic_init\<close> from \<^verbatim>\<open>self._asic_start = True\<close> to the call of \<^verbatim>\<open>update_asic_config\<close>
  and, for a session without injection and a call without \<^verbatim>\<open>analog_col\<close>, on to the
  final \<^verbatim>\<open>self.asic_update()\<close>. The configuration the loader of \<^verbatim>\<open>core/asic.py\<close> (not
  among the sources) has read from the YAML file is the parameter \<open>loaded\<close>.
  \<^verbatim>\<open>if dac_setup:\<close> is false for \<^verbatim>\<open>None\<close> and for the empty dictionary.
\<close>

definition asic_init ::
  "astropixRun \<Rightarrow> config \<Rightarrow> (string \<times> int) list option \<Rightarrow> (string \<times> int) list option
     \<Rightarrow> unit outcome \<times> astropixRun" where
  "asic_init r loaded dac_setup bias_setup =
     (let r1 = r\<lparr>asic_start := True, run_config := loaded\<rparr>;
          items = (case dac_setup of None \<Rightarrow> [] | Some kvs \<Rightarrow> kvs)
      in case sort_dac_setup loaded items None None of
           Inl e \<Rightarrow> (Raised e, r1)
         | Inr None \<Rightarrow> (Returned (), emit (Log (LogWarningBadDAC items)) r1)
         | Inr (Some (idac_setup, vdac_setup)) \<Rightarrow>
             (case update_asic_config r1 bias_setup idac_setup vdac_setup of
                (Raised e, r2) \<Rightarrow> (Raised e, r2)
              | (Returned u, r2) \<Rightarrow>
                  (Returned (),
                   emit (Log (LogInfo ''ASIC SUCCESSFULLY CONFIGURED''))
                     (asic_update (emit (Log (LogInfo ''LOADING TO ASIC...'')) r2)))))"

section \<open>The start-up self-test: \<^verbatim>\<open>astropixRun._test_io\<close>\<close>

text \<open>
  The FPGA interface \<^verbatim>\<open>Nexysio\<close> is an external collaborator: its four methods used by
  the self-test are parameters, each a function of the hardware state \<open>'h\<close> that returns
  or raises and leaves a new hardware state. \<^verbatim>\<open>read_register\<close> returns the bytes read.
\<close>

record 'h nexysio =
  write_register :: "int \<Rightarrow> int \<Rightarrow> bool \<Rightarrow> 'h \<Rightarrow> unit outcome \<times> 'h"
  read_register :: "int \<Rightarrow> 'h \<Rightarrow> int list outcome \<times> 'h"
  spi_reset_fpga_readout :: "'h \<Rightarrow> unit outcome \<times> 'h"
  sr_readback_reset :: "'h \<Rightarrow> unit outcome \<times> 'h"

text \<open>
  \<^verbatim>\<open>_test_io\<close>: the four calls inside \<^verbatim>\<open>try\<close>; \<^verbatim>\<open>except Exception\<close> turns whatever one of
  them raises into \<^verbatim>\<open>RuntimeError\<close>. The value of \<^verbatim>\<open>read_register(0x09)\<close> is dropped.
\<close>

definition test_io :: "'h nexysio \<Rightarrow> 'h \<Rightarrow> unit outcome \<times> 'h" where
  "test_io nx h =
     (case write_register nx 9 85 True h of
        (Raised e, h1) \<Rightarrow> (Raised RuntimeError, h1)
      | (Returned u, h1) \<Rightarrow>
          (case read_register nx 9 h1 of
             (Raised e, h2) \<Rightarrow> (Raised RuntimeError, h2)
           | (Returned bytes, h2) \<Rightarrow>
               (case spi_reset_fpga_readout nx h2 of
                  (Raised e, h3) \<Rightarrow> (Raised RuntimeError, h3)
                | (Returned u, h3) \<Rightarrow>
                    (case sr_readback_reset nx h3 of
                       (Raised e, h4) \<Rightarrow> (Raised RuntimeError, h4)
                     | (Returned u, h4) \<Rightarrow> (Returned (), h4)))))"

section \<open>Concrete configurations\<close>

text \<open>
  A small configuration in the shape of the chip's YAML files, with three columns; the
  values that the examples change are parameters. \<open>68719476734\<close> is the default column
  word \<^verbatim>\<open>0b001_11111_..._11110\<close>, \<open>206158430206\<close> the same word with bit 37 set and
  \<open>68719476732\<close> the default word with bit 1 (the pixel of row 0) cleared.
\<close>

definition ex_cols :: "int \<Rightarrow> int \<Rightarrow> int \<Rightarrow> block" where
  "ex_cols c0 c1 c2 = [(''col0'', (38, c0)), (''col1'', (38, c1)), (''col2'', (38, c2))]"

definition ex_blocks :: "int \<Rightarrow> int \<Rightarrow> int \<Rightarrow> block \<Rightarrow> config" where
  "ex_blocks dishidr blres vn1 rc =
     [(''digitalconfig'',
         [(''interrupt_pushpull'', (1, 1)), (''En_Inj1'', (1, 0)), (''ResetB'', (1, 0)),
          (''Extrabits'', (15, 0))]),
      (''biasconfig'', [(''DisHiDR'', (1, dishidr)), (''q01'', (1, 0))]),
      (''idacs'', [(''blres'', (6, blres)), (''vn1'', (6, vn1))]),
      (''vdacs'', [(''blpix'', (10, 568)), (''thpix'', (10, 610))]),
      (''recconfig'', rc)]"

definition ex_config :: config where
  "ex_config = ex_blocks 0 0 20 (ex_cols 68719476734 68719476734 68719476734)"

text \<open>
  The \<^verbatim>\<open>Asic\<close> object after loading a YAML file without aliases: the fields are numbered
  in order, each one a list object of its own.
\<close>

fun number_config :: "nat \<Rightarrow> config \<Rightarrow> rconfig" where
  "number_config n [] = []"
| "number_config n (kb # rest) =
     (fst kb, zip (map fst (snd kb)) [n..<n + length (snd kb)])
       # number_config (n + length (snd kb)) rest"

definition fresh_asic :: "int \<Rightarrow> int \<Rightarrow> config \<Rightarrow> asic" where
  "fresh_asic rows cols cfg =
     \<lparr>num_rows = rows, num_cols = cols,
      asic_config = Some (number_config 0 cfg),
      store = concat (map (\<lambda>kb. map snd (snd kb)) cfg),
      logged = []\<rparr>"

definition ex_asic_cols :: "int \<Rightarrow> int \<Rightarrow> int \<Rightarrow> int \<Rightarrow> asic" where
  "ex_asic_cols n c0 c1 c2 = fresh_asic 35 n (ex_blocks 0 0 20 (ex_cols c0 c1 c2))"

definition ex_asic :: asic where
  "ex_asic = ex_asic_cols 3 68719476734 68719476734 68719476734"

text \<open>Ten columns, all at the default word except that column \<open>j\<close> has bit 37 set.\<close>

definition ex_asic10 :: "int \<Rightarrow> asic" where
  "ex_asic10 j =
     fresh_asic 35 10
       [(''recconfig'',
         map (\<lambda>i. (col_key i, (38, if i = j then 206158430206 else 68719476734))) [0..9])]"

text \<open>
  The \<^verbatim>\<open>Asic\<close> object after loading a YAML file with two columns in which \<^verbatim>\<open>col1\<close> is an
  alias of the anchor on \<^verbatim>\<open>col0\<close>: both keys hold the one list object, of value \<open>c\<close>.
\<close>

definition ex_shared :: "int \<Rightarrow> asic" where
  "ex_shared c =
     \<lparr>num_rows = 35, num_cols = 2,
      asic_config = Some [(''recconfig'', [(''col0'', 0), (''col1'', 0)])],
      store = [(38, c)],
      logged = []\<rparr>"

text \<open>A session, by its flag, its configuration and its events.\<close>

definition ex_run :: "bool \<Rightarrow> config \<Rightarrow> event list \<Rightarrow> astropixRun" where
  "ex_run started cfg evs = \<lparr>asic_start = started, run_config = cfg, events = evs\<rparr>"

text \<open>
  An FPGA link on which writes are lost: the hardware state is the content of the
  register, \<^verbatim>\<open>write_register\<close> leaves it alone, \<^verbatim>\<open>read_register\<close> returns it as one byte,
  and no call raises.
\<close>

definition ex_nexys :: "int nexysio" where
  "ex_nexys =
     \<lparr>write_register = (\<lambda>reg val flush h. (Returned (), h)),
      read_register = (\<lambda>reg h. (Returned [h], h)),
      spi_reset_fpga_readout = (\<lambda>h. (Returned (), h)),
      sr_readback_reset = (\<lambda>h. (Returned (), h))\<rparr>"

section \<open>Properties of the encoding\<close>

lemma length_uint_bits: "length (uint_bits n v) = n"
  by (induction n arbitrary: v) simp_all

lemma uint_of_snoc: "uint_of (bs @ [b]) = 2 * uint_of bs + (if b then 1 else 0)"
  by (simp add: uint_of_def)

lemma uint_of_uint_bits: "uint_of (uint_bits n v) = v mod 2 ^ n"
proof (induction n arbitrary: v)
  case 0
  show ?case by (simp add: uint_of_def)
next
  case (Suc n)
  have "uint_of (uint_bits (Suc n) v) = 2 * ((v div 2) mod 2 ^ n) + v mod 2"
    by (simp add: uint_of_snoc Suc.IH odd_iff_mod_2_eq_one)
  also have "\<dots> = v mod 2 ^ Suc n"
    using zmod_zmult2_eq [of "2 ^ n" v 2] by simp
  finally show ?case .
qed

lemma int2nbit_valid:
  assumes "valid_field (w, v)"
  shows "int2nbit v w = Some (uint_bits (nat w) v)"
  using assms by (simp add: valid_field_def int2nbit_def BitArray_uint_def)

lemma append_fields_valid:
  assumes "list_all valid_field fs"
  shows "append_fields on_none fs bv = Inr (bv @ concat (map field_bits fs))"
  using assms
proof (induction fs arbitrary: bv)
  case Nil
  show ?case by simp
next
  case (Cons f fs)
  from Cons.prems have f: "valid_field (fst f, snd f)" and fs: "list_all valid_field fs"
    by simp_all
  show ?case
    by (simp add: int2nbit_valid [OF f] Cons.IH [OF fs] field_bits_def)
qed

lemma append_blocks_valid:
  assumes "valid_config (map (\<lambda>kb. (fst kb, map (\<lambda>kr. (fst kr, st ! snd kr)) (snd kb))) cfg)"
  shows "append_blocks on_none st cfg bv =
         Inr (bv @ concat (map (\<lambda>kb. concat (map field_bits (map (\<lambda>kr. st ! snd kr) (snd kb)))) cfg))"
  using assms
proof (induction cfg arbitrary: bv)
  case Nil
  show ?case by simp
next
  case (Cons kb cfg)
  from Cons.prems have kb: "list_all valid_field (map (\<lambda>kr. st ! snd kr) (snd kb))"
    and rest: "valid_config (map (\<lambda>kb. (fst kb, map (\<lambda>kr. (fst kr, st ! snd kr)) (snd kb))) cfg)"
    by (simp_all add: valid_config_def list_all_iff)
  show ?case
    by (simp add: append_fields_valid [OF kb] Cons.IH [OF rest])
qed

lemma length_field_bits_valid:
  assumes "list_all valid_field fs"
  shows "int (length (concat (map field_bits fs))) = sum_list (map fst fs)"
  using assms
  by (induction fs) (simp_all add: field_bits_def length_uint_bits valid_field_def)

lemma length_config_bits_valid:
  assumes "valid_config cfg"
  shows "int (length (concat (map (\<lambda>kb. concat (map field_bits (map snd (snd kb)))) cfg)))
         = total_width cfg"
  using assms
proof (induction cfg)
  case Nil
  show ?case by (simp add: total_width_def)
next
  case (Cons kb cfg)
  from Cons.prems have kb: "list_all valid_field (map snd (snd kb))" and rest: "valid_config cfg"
    by (simp_all add: valid_config_def list_all_iff)
  have "int (length (concat (map field_bits (map snd (snd kb)))))
        = sum_list (map (\<lambda>kf. fst (snd kf)) (snd kb))"
    using length_field_bits_valid [OF kb] by (simp add: comp_def)
  with Cons.IH [OF rest] show ?case
    by (simp add: total_width_def)
qed

section \<open>Claims about the encoding and the serializer\<close>

text \<open>
  C7. A value that fits a width of at least one bit is encoded by \<^verbatim>\<open>__int2nbit\<close> as a bit
  array of exactly that many bits whose unsigned reading is the value again. A value of
  \<open>2 ^ width\<close> or more is not encoded at all: the constructor's \<^verbatim>\<open>ValueError\<close> is caught
  and the function yields \<^verbatim>\<open>None\<close>, never a truncated bit array.
\<close>

theorem int2nbit_roundtrip:
  "(0 < nbits \<and> 0 \<le> val \<and> val < 2 ^ nat nbits \<longrightarrow>
      (\<exists>b. int2nbit val nbits = Some b \<and> int (length b) = nbits \<and> uint_of b = val))
   \<and> (2 ^ nat nbits \<le> val \<longrightarrow> int2nbit val nbits = None)"
proof (intro conjI impI)
  assume fits: "0 < nbits \<and> 0 \<le> val \<and> val < 2 ^ nat nbits"
  then have enc: "int2nbit val nbits = Some (uint_bits (nat nbits) val)"
    by (simp add: int2nbit_valid valid_field_def)
  from fits have "uint_of (uint_bits (nat nbits) val) = val"
    by (simp add: uint_of_uint_bits)
  with enc fits
  show "\<exists>b. int2nbit val nbits = Some b \<and> int (length b) = nbits \<and> uint_of b = val"
    by (simp add: length_uint_bits)
next
  assume "2 ^ nat nbits \<le> val"
  then show "int2nbit val nbits = None"
    by (simp add: int2nbit_def BitArray_uint_def)
qed

theorem int2nbit_roundtrip_witness:
  "(0::int) < 3 \<and> (0::int) \<le> 5 \<and> (5::int) < 2 ^ nat 3
   \<and> (\<exists>b. int2nbit 5 3 = Some b \<and> int (length b) = 3 \<and> uint_of b = 5)
   \<and> (2::int) ^ nat 3 \<le> 8 \<and> int2nbit 8 3 = None"
  using int2nbit_roundtrip [of 3 5] int2nbit_roundtrip [of 3 8] by simp

text \<open>
  C1. For a configuration all of whose fields, read through their references, are
  valid, \<^verbatim>\<open>gen_asic_vector\<close> returns a bit sequence (it raises nothing, whatever the
  library does on \<^verbatim>\<open>append(None)\<close>), for either setting of \<open>msbfirst\<close>, and the length of
  the sequence is the sum of the widths of all fields of all blocks, a number that does
  not depend on the field values.
\<close>

theorem gen_asic_vector_length:
  assumes "config_view s = Some cfg" and "valid_config cfg"
  shows "\<exists>bv. gen_asic_vector on_none s msbfirst = Inr bv \<and> int (length bv) = total_width cfg"
proof -
  from assms(1) obtain rcfg where rcfg: "asic_config s = Some rcfg"
    and cfg: "cfg = map (\<lambda>kb. (fst kb, map (\<lambda>kr. (fst kr, store s ! snd kr)) (snd kb))) rcfg"
    by (auto simp: config_view_def)
  from assms(2) have v: "valid_config
      (map (\<lambda>kb. (fst kb, map (\<lambda>kr. (fst kr, store s ! snd kr)) (snd kb))) rcfg)"
    by (simp add: cfg)
  have "int (length (concat (map (\<lambda>kb. concat (map field_bits (map snd (snd kb)))) cfg)))
        = total_width cfg"
    by (rule length_config_bits_valid [OF assms(2)])
  then have len: "int (length (concat (map (\<lambda>kb.
        concat (map field_bits (map (\<lambda>kr. store s ! snd kr) (snd kb)))) rcfg))) = total_width cfg"
    by (simp add: cfg comp_def)
  show ?thesis
    using len by (simp add: gen_asic_vector_def rcfg append_blocks_valid [OF v])
qed

theorem gen_asic_vector_length_witness:
  "config_view ex_asic = Some ex_config \<and> valid_config ex_config
   \<and> total_width ex_config = 166
   \<and> (\<exists>bv. gen_asic_vector (\<lambda>bv. Inl TypeError) ex_asic False = Inr bv
          \<and> int (length bv) = 166)"
proof -
  have c: "config_view ex_asic = Some ex_config" by code_simp
  have v: "valid_config ex_config" by code_simp
  have t: "total_width ex_config = 166" by code_simp
  from gen_asic_vector_length [OF c v, of "\<lambda>bv. Inl TypeError" False] c v t
  show ?thesis by simp
qed

text \<open>
  C2. For a valid configuration the vector generated with \<open>msbfirst = False\<close> is the
  reversal, as one whole list, of the vector generated with \<open>msbfirst = True\<close>.
\<close>

theorem gen_asic_vector_reverse:
  assumes "config_view s = Some cfg" and "valid_config cfg"
  shows "\<exists>bv. gen_asic_vector on_none s True = Inr bv
              \<and> gen_asic_vector on_none s False = Inr (rev bv)"
proof -
  from assms(1) obtain rcfg where rcfg: "asic_config s = Some rcfg"
    and cfg: "cfg = map (\<lambda>kb. (fst kb, map (\<lambda>kr. (fst kr, store s ! snd kr)) (snd kb))) rcfg"
    by (auto simp: config_view_def)
  from assms(2) have v: "valid_config
      (map (\<lambda>kb. (fst kb, map (\<lambda>kr. (fst kr, store s ! snd kr)) (snd kb))) rcfg)"
    by (simp add: cfg)
  show ?thesis
    by (simp add: gen_asic_vector_def rcfg append_blocks_valid [OF v])
qed

theorem gen_asic_vector_reverse_witness:
  "config_view ex_asic = Some ex_config \<and> valid_config ex_config
   \<and> (\<exists>bv. gen_asic_vector (\<lambda>bv. Inl TypeError) ex_asic True = Inr bv
          \<and> gen_asic_vector (\<lambda>bv. Inl TypeError) ex_asic False = Inr (rev bv))"
proof -
  have c: "config_view ex_asic = Some ex_config" by code_simp
  have v: "valid_config ex_config" by code_simp
  from gen_asic_vector_reverse [OF c v, of "\<lambda>bv. Inl TypeError"] c v
  show ?thesis by simp
qed

section \<open>Properties of the column words\<close>

lemma word_refD:
  assumes "word_ref s key = Some r"
  obtains rc where "recconfig s = Inr rc" "map_of rc key = Some r" "r < length (store s)"
  using assms by (auto simp: word_ref_def split: sum.splits option.splits if_splits)

lemma word_refI:
  "recconfig s = Inr rc \<Longrightarrow> map_of rc key = Some r \<Longrightarrow> r < length (store s)
   \<Longrightarrow> word_ref s key = Some r"
  by (simp add: word_ref_def)

lemma recconfig_set_word [simp]: "recconfig (set_word s r x) = recconfig s"
  by (simp add: recconfig_def set_word_def)

lemma set_word_fields [simp]:
  "num_rows (set_word s r x) = num_rows s"
  "num_cols (set_word s r x) = num_cols s"
  "logged (set_word s r x) = logged s"
  "asic_config (set_word s r x) = asic_config s"
  "length (store (set_word s r x)) = length (store s)"
  by (simp_all add: set_word_def)

lemma word_ref_set_word [simp]: "word_ref (set_word s r x) key = word_ref s key"
  by (simp add: word_ref_def split: sum.splits option.splits)

lemma store_set_word:
  "r < length (store s) \<Longrightarrow> store (set_word s r x) ! r = (fst (store s ! r), x)"
  by (simp add: set_word_def)

lemma set_word_twice: "set_word (set_word s r x) r y = set_word s r y"
  by (cases "r < length (store s)") (simp_all add: set_word_def list_update_beyond)

lemma set_word_same: "snd (store s ! r) = x \<Longrightarrow> set_word s r x = s"
proof -
  assume "snd (store s ! r) = x"
  then have "(fst (store s ! r), x) = store s ! r" by (metis prod.collapse)
  then show ?thesis by (simp add: set_word_def)
qed

lemma col_word_set_word:
  assumes "word_ref s key = Some r"
  shows "col_word (set_word s r x) key = Some (fst (store s ! r), x)"
  using assms by (auto simp: col_word_def store_set_word elim: word_refD)

lemma assign_col_ref:
  assumes "recconfig s = Inr rc" and "map_of rc key = Some r"
  shows "assign_col s key (Inr x) = (Returned (), set_word s r x)"
  using assms by (simp add: assign_col_def set_word_def)

lemma recconfig_get_ref:
  assumes "recconfig s = Inr rc" and "map_of rc key = Some r"
  shows "recconfig_get s key = Inr (snd (store s ! r))"
  using assms by (simp add: recconfig_get_def then_do_def)

lemma recconfig_item_ref:
  assumes "recconfig s = Inr rc" and "map_of rc key = Some r"
  shows "recconfig_item s key = Inr (snd (store s ! r))"
  using assms by (simp add: recconfig_item_def then_do_def)

lemma lshift2: "0 \<le> row \<Longrightarrow> py_lshift 2 row = Inr (2 ^ nat (row + 1))"
  by (simp add: py_lshift_def push_bit_eq_mult nat_add_distrib)

lemma lshift1: "0 \<le> row \<Longrightarrow> py_lshift 1 (row + 1) = Inr (2 ^ nat (row + 1))"
  by (simp add: py_lshift_def push_bit_eq_mult)

lemma and_exp_eq_0_iff: "(v AND 2 ^ n = 0) \<longleftrightarrow> \<not> bit (v::int) n"
  by (simp add: bit_iff_and_push_bit_not_eq_0 push_bit_eq_mult)

lemma clear_then_test: "((v::int) AND NOT (2 ^ n)) AND 2 ^ n = 0"
  by (rule bit_eqI) (simp add: bit_simps)

lemma set_then_test: "\<not> (((v::int) OR 2 ^ n) AND 2 ^ n = 0)"
  by (simp add: and_exp_eq_0_iff bit_simps)

lemma clear_then_set: "((v::int) AND NOT m) OR m = v OR m"
  by (rule bit_eqI) (auto simp add: bit_simps)

lemma set_bit_id: "bit (v::int) n \<Longrightarrow> v OR 2 ^ n = v"
  by (rule bit_eqI) (auto simp add: bit_simps)

lemma enable_pixel_ref:
  assumes ref: "word_ref s (col_key col) = Some r"
      and row: "0 \<le> row" "row < num_rows s" and col: "col < num_cols s"
  shows "enable_pixel s col row
         = (Returned (), set_word s r (snd (store s ! r) AND NOT (2 ^ nat (row + 1))))"
proof -
  from ref obtain rc where rc: "recconfig s = Inr rc" "map_of rc (col_key col) = Some r"
    by (rule word_refD)
  show ?thesis
    using row col
    by (simp add: enable_pixel_def recconfig_get_ref [OF rc] lshift2 then_do_def
        assign_col_ref [OF rc])
qed

lemma disable_pixel_ref:
  assumes ref: "word_ref s (col_key col) = Some r"
      and row: "0 \<le> row" "row < num_rows s" and col: "col < num_cols s"
  shows "disable_pixel s col row
         = (Returned (), set_word s r (snd (store s ! r) OR 2 ^ nat (row + 1)))"
proof -
  from ref obtain rc where rc: "recconfig s = Inr rc" "map_of rc (col_key col) = Some r"
    by (rule word_refD)
  show ?thesis
    using row col
    by (simp add: disable_pixel_def recconfig_get_ref [OF rc] lshift2 then_do_def
        assign_col_ref [OF rc])
qed

lemma get_pixel_ref:
  assumes ref: "word_ref s (col_key col) = Some r"
      and row: "0 \<le> row" "row < num_rows s"
  shows "get_pixel s col row
         = (Returned (Some (\<not> bit (snd (store s ! r)) (nat (row + 1)))), s)"
proof -
  from ref obtain rc where rc: "recconfig s = Inr rc" "map_of rc (col_key col) = Some r"
    by (rule word_refD)
  show ?thesis
    using row
    by (simp add: get_pixel_def recconfig_get_ref [OF rc] lshift1 then_do_def and_exp_eq_0_iff)
qed

lemma length_clear_store [simp]: "length (clear_store R st) = length st"
  by (simp add: clear_store_def)

lemma nth_clear_store:
  "j < length st \<Longrightarrow>
   clear_store R st ! j = (if j \<in> R then (fst (st ! j), snd (st ! j) AND ampout_keep) else st ! j)"
  by (simp add: clear_store_def)

lemma length_ampout_store [simp]: "length (ampout_store R r st) = length st"
  by (simp add: ampout_store_def)

lemma mask_twice: "((v::int) AND ampout_keep) AND ampout_keep = v AND ampout_keep"
  by (simp add: and.assoc)

lemma nth_ampout_store:
  assumes "j < length st"
  shows "ampout_store R r st ! j =
         (if j = r then (fst (st ! j), (snd (st ! j) AND ampout_keep) OR ampout_bit)
          else if j \<in> R then (fst (st ! j), snd (st ! j) AND ampout_keep)
          else st ! j)"
  using assms by (simp add: ampout_store_def nth_list_update nth_clear_store)

lemma clear_store_empty: "clear_store {} st = st"
  by (simp add: clear_store_def map_nth)

lemma clear_store_step:
  "clear_store R (st[r := (fst (st ! r), snd (st ! r) AND ampout_keep)])
   = clear_store (insert r R) st"
proof (rule nth_equalityI)
  show "length (clear_store R (st[r := (fst (st ! r), snd (st ! r) AND ampout_keep)]))
        = length (clear_store (insert r R) st)"
    by simp
next
  fix j assume "j < length (clear_store R (st[r := (fst (st ! r), snd (st ! r) AND ampout_keep)]))"
  then have j: "j < length st" by simp
  show "clear_store R (st[r := (fst (st ! r), snd (st ! r) AND ampout_keep)]) ! j
        = clear_store (insert r R) st ! j"
    using j by (cases "j = r") (simp_all add: nth_clear_store mask_twice)
qed

lemma store_update_twice: "(s\<lparr>store := a\<rparr>)\<lparr>store := b\<rparr> = s\<lparr>store := b\<rparr>"
  by simp

lemma recconfig_store_update [simp]: "recconfig (s\<lparr>store := st\<rparr>) = recconfig s"
  by (simp add: recconfig_def)

lemma ampout_clear_closed:
  assumes "recconfig s = Inr rc"
      and "\<forall>i \<in> set cols. map_of rc (col_key i) \<noteq> None"
  shows "ampout_clear cols s
         = (Returned (),
            s\<lparr>store := clear_store ((\<lambda>i. the (map_of rc (col_key i))) ` set cols) (store s)\<rparr>)"
  using assms
proof (induction cols arbitrary: s)
  case Nil
  show ?case by (simp add: clear_store_empty)
next
  case (Cons i cols)
  from Cons.prems(2) obtain r where r: "map_of rc (col_key i) = Some r" by auto
  define s1 where "s1 = set_word s r (snd (store s ! r) AND ampout_keep)"
  have step: "assign_col s (col_key i)
               (then_do (recconfig_item s (col_key i)) (\<lambda>v. Inr (v AND ampout_keep)))
             = (Returned (), s1)"
    unfolding s1_def
    by (simp add: recconfig_item_ref [OF Cons.prems(1) r] then_do_def
        assign_col_ref [OF Cons.prems(1) r])
  have r1: "recconfig s1 = Inr rc" by (simp add: s1_def Cons.prems(1))
  from Cons.prems(2) have rest: "\<forall>i \<in> set cols. map_of rc (col_key i) \<noteq> None" by simp
  define R where "R = (\<lambda>i. the (map_of rc (col_key i))) ` set cols"
  have ih: "ampout_clear cols s1 = (Returned (), s1\<lparr>store := clear_store R (store s1)\<rparr>)"
    unfolding R_def by (rule Cons.IH [OF r1 rest])
  have st1: "store s1 = (store s)[r := (fst (store s ! r), snd (store s ! r) AND ampout_keep)]"
    by (simp add: s1_def set_word_def)
  have "s1\<lparr>store := clear_store R (store s1)\<rparr> = s\<lparr>store := clear_store (insert r R) (store s)\<rparr>"
    by (simp add: st1 clear_store_step s1_def set_word_def)
  moreover have "(\<lambda>i. the (map_of rc (col_key i))) ` set (i # cols) = insert r R"
    by (simp add: R_def r)
  ultimately show ?case
    by (simp add: step ih)
qed

lemma column_refs_loop:
  assumes dist: "distinct (map fst rc)"
      and keys: "set (map fst rc) = set (map col_key cols)"
  shows "(\<lambda>i. the (map_of rc (col_key i))) ` set cols = set (map snd rc)"
proof (intro set_eqI iffI)
  fix r assume "r \<in> (\<lambda>i. the (map_of rc (col_key i))) ` set cols"
  then obtain i where i: "i \<in> set cols" and r: "r = the (map_of rc (col_key i))" by blast
  from i keys have "col_key i \<in> fst ` set rc" by auto
  then obtain r' where r': "map_of rc (col_key i) = Some r'"
    by (cases "map_of rc (col_key i)") (auto simp: map_of_eq_None_iff)
  then have "(col_key i, r') \<in> set rc" by (rule map_of_SomeD)
  with r r' show "r \<in> set (map snd rc)" by force
next
  fix r assume "r \<in> set (map snd rc)"
  then obtain k where kr: "(k, r) \<in> set rc" by auto
  then have "k \<in> set (map fst rc)" by force
  with keys obtain i where i: "i \<in> set cols" and k: "k = col_key i" by auto
  from dist kr have "map_of rc k = Some r" by (rule map_of_is_SomeI)
  with i k show "r \<in> (\<lambda>i. the (map_of rc (col_key i))) ` set cols" by force
qed

lemma enable_ampout_col_closed:
  assumes rc: "recconfig s = Inr rc" and dist: "distinct (map fst rc)"
      and keys: "set (map fst rc) = set (map col_key [0..num_cols s - 1])"
      and col: "0 \<le> col" "col < num_cols s"
  shows "\<exists>r. map_of rc (col_key col) = Some r
           \<and> enable_ampout_col s col
               = (Returned (), s\<lparr>store := ampout_store (set (map snd rc)) r (store s)\<rparr>)"
proof -
  define cols where "cols = [0..num_cols s - 1]"
  define R where "R = set (map snd rc)"
  define k where "k = col_key col"
  from keys have keys': "set (map fst rc) = set (map col_key cols)" by (simp add: cols_def)
  have present: "\<forall>i \<in> set cols. map_of rc (col_key i) \<noteq> None"
  proof
    fix i assume "i \<in> set cols"
    with keys' have "col_key i \<in> fst ` set rc" by auto
    then show "map_of rc (col_key i) \<noteq> None" by (simp add: map_of_eq_None_iff)
  qed
  have RR: "(\<lambda>i. the (map_of rc (col_key i))) ` set cols = R"
    unfolding R_def by (rule column_refs_loop [OF dist keys'])
  define s1 where "s1 = s\<lparr>store := clear_store R (store s)\<rparr>"
  have loop: "ampout_clear cols s = (Returned (), s1)"
    using ampout_clear_closed [OF rc present] by (simp add: RR s1_def)
  from col have "col \<in> set cols" by (simp add: cols_def)
  with present obtain r where r: "map_of rc k = Some r" by (auto simp: k_def)
  then have "(k, r) \<in> set rc" by (rule map_of_SomeD)
  then have rR: "r \<in> R" by (force simp: R_def)
  have r1: "recconfig s1 = Inr rc" by (simp add: s1_def rc)
  have val1: "(store s1)[r := (fst (store s1 ! r), snd (store s1 ! r) OR ampout_bit)]
              = ampout_store R r (store s)"
  proof (cases "r < length (store s)")
    case True
    with rR show ?thesis
      by (simp add: s1_def ampout_store_def nth_clear_store)
  next
    case False
    then show ?thesis
      by (simp add: s1_def ampout_store_def list_update_beyond)
  qed
  have "assign_col s1 k (then_do (recconfig_item s1 k) (\<lambda>v. Inr (v OR ampout_bit)))
        = (Returned (), set_word s1 r (snd (store s1 ! r) OR ampout_bit))"
    by (simp add: recconfig_item_ref [OF r1 r] then_do_def assign_col_ref [OF r1 r])
  also have "set_word s1 r (snd (store s1 ! r) OR ampout_bit)
             = s\<lparr>store := ampout_store R r (store s)\<rparr>"
    unfolding set_word_def val1 by (simp add: s1_def)
  finally have last: "assign_col s1 k (then_do (recconfig_item s1 k) (\<lambda>v. Inr (v OR ampout_bit)))
        = (Returned (), s\<lparr>store := ampout_store R r (store s)\<rparr>)" .
  have "enable_ampout_col s col
        = (case ampout_clear cols s of
             (Raised e, s') \<Rightarrow> (Raised e, s')
           | (Returned u, s') \<Rightarrow>
               assign_col s' k (then_do (recconfig_item s' k) (\<lambda>v. Inr (v OR ampout_bit))))"
    unfolding enable_ampout_col_def cols_def k_def by (rule refl)
  also have "\<dots> = (Returned (), s\<lparr>store := ampout_store R r (store s)\<rparr>)"
    by (simp add: loop last)
  finally show ?thesis using r by (simp add: k_def R_def)
qed

lemma str_nat_small: "n < 10 \<Longrightarrow> str_nat n = [digit_char n]"
  by (simp add: str_nat.simps)

lemma str_nat_large: "\<not> n < 10 \<Longrightarrow> str_nat n = str_nat (n div 10) @ [digit_char (n mod 10)]"
  by (subst str_nat.simps) simp

lemma str_nat_not_Nil: "str_nat n \<noteq> []"
  by (cases "n < 10") (simp_all add: str_nat_small str_nat_large)

lemma str_nat_not_Nil': "[] \<noteq> str_nat n"
  using str_nat_not_Nil [of n] by simp

lemma digit_char_inj: "a < 10 \<Longrightarrow> b < 10 \<Longrightarrow> digit_char a = digit_char b \<Longrightarrow> a = b"
  by (simp add: digit_char_def char_of_eq_iff take_bit_eq_mod)

lemma digit_char_not_minus: "d < 10 \<Longrightarrow> digit_char d \<noteq> CHR ''-''"
proof
  assume d: "d < 10" and eq: "digit_char d = CHR ''-''"
  from eq have "(of_char (digit_char d) :: nat) = of_char CHR ''-''" by simp
  with d show False by (simp add: digit_char_def)
qed

lemma str_nat_inj: "str_nat n = str_nat m \<Longrightarrow> n = m"
proof (induction n arbitrary: m rule: str_nat.induct)
  case (1 n)
  show ?case
  proof (cases "n < 10")
    case True
    note n = this
    show ?thesis
    proof (cases "m < 10")
      case True
      with n "1.prems" show ?thesis
        by (simp add: str_nat_small digit_char_inj)
    next
      case False
      with n "1.prems" show ?thesis
        by (simp add: str_nat_small str_nat_large str_nat_not_Nil str_nat_not_Nil')
    qed
  next
    case False
    note n = this
    show ?thesis
    proof (cases "m < 10")
      case True
      with n "1.prems" show ?thesis
        by (simp add: str_nat_small str_nat_large str_nat_not_Nil str_nat_not_Nil')
    next
      case False
      with n "1.prems" have eq: "str_nat (n div 10) = str_nat (m div 10)"
        and d: "digit_char (n mod 10) = digit_char (m mod 10)"
        by (simp_all add: str_nat_large)
      from "1.IH" [OF n eq] have "n div 10 = m div 10" .
      moreover from d have "n mod 10 = m mod 10"
        by (rule digit_char_inj [rotated 2]) simp_all
      ultimately show ?thesis
        by (metis div_mult_mod_eq)
    qed
  qed
qed

lemma hd_str_nat_not_minus: "hd (str_nat n) \<noteq> CHR ''-''"
proof (induction n rule: str_nat.induct)
  case (1 n)
  show ?case
  proof (cases "n < 10")
    case True
    then show ?thesis by (simp add: str_nat_small digit_char_not_minus)
  next
    case False
    with "1.IH" show ?thesis
      by (simp add: str_nat_large str_nat_not_Nil)
  qed
qed

lemma str_int_inj: "str_int i = str_int j \<Longrightarrow> i = j"
proof -
  assume eq: "str_int i = str_int j"
  have neq: "\<And>a b. CHR ''-'' # str_nat a \<noteq> str_nat b"
  proof
    fix a b assume "CHR ''-'' # str_nat a = str_nat b"
    then have "hd (str_nat b) = CHR ''-''" by (metis list.sel(1))
    with hd_str_nat_not_minus show False by blast
  qed
  show "i = j"
  proof (cases "i < 0")
    case True
    note i = this
    show ?thesis
    proof (cases "j < 0")
      case True
      with i eq have "nat (- i) = nat (- j)" by (simp add: str_int_def str_nat_inj)
      with i True show ?thesis by simp
    next
      case False
      with i eq neq show ?thesis by (simp add: str_int_def)
    qed
  next
    case False
    note i = this
    show ?thesis
    proof (cases "j < 0")
      case True
      with i eq neq [of "nat (- j)" "nat i"] show ?thesis by (simp add: str_int_def)
    next
      case False
      with i eq have "nat i = nat j" by (simp add: str_int_def str_nat_inj)
      with i False show ?thesis by simp
    qed
  qed
qed

lemma col_key_inj: "col_key i = col_key j \<Longrightarrow> i = j"
  by (simp add: col_key_def str_int_inj)

lemma ampout_keep_mask: "ampout_keep = mask 37"
  by (simp add: ampout_keep_def mask_eq_exp_minus_1)

lemma bit37_cleared: "\<not> bit (v AND ampout_keep) 37"
  by (simp add: ampout_keep_mask bit_simps)

lemma bit37_set: "bit (v OR ampout_bit) 37"
  by (simp add: ampout_bit_def bit_simps)

lemma bit_ampout_bit: "bit ampout_bit n \<longleftrightarrow> n = 37"
  unfolding ampout_bit_def by (simp only: bit_exp_iff) simp

lemma bit_ampout_keep: "bit ampout_keep n \<longleftrightarrow> n < 37"
  by (simp add: ampout_keep_mask bit_simps)

lemma select_twice: "((v AND ampout_keep) OR ampout_bit) AND ampout_keep = v AND ampout_keep"
  by (rule bit_eqI) (auto simp add: bit_and_iff bit_or_iff bit_ampout_bit bit_ampout_keep)

lemma ampout_store_idem:
  assumes "r \<in> R"
  shows "ampout_store R r (ampout_store R r st) = ampout_store R r st"
proof (rule nth_equalityI)
  show "length (ampout_store R r (ampout_store R r st)) = length (ampout_store R r st)" by simp
next
  fix j assume "j < length (ampout_store R r (ampout_store R r st))"
  then have j: "j < length st" by simp
  show "ampout_store R r (ampout_store R r st) ! j = ampout_store R r st ! j"
    using j assms by (simp add: nth_ampout_store select_twice mask_twice)
qed

lemma unshared_key_of_ref:
  assumes "distinct (map snd rc)" and "map_of rc k = Some r" and "map_of rc k' = Some r"
  shows "k = k'"
proof -
  from assms(2,3) have "(k, r) \<in> set rc" and "(k', r) \<in> set rc"
    by (auto dest: map_of_SomeD)
  moreover from assms(1) have "inj_on snd (set rc)" by (simp add: distinct_map)
  ultimately have "(k, r) = (k', r)" by (intro inj_onD [of snd "set rc"]) simp_all
  then show ?thesis by simp
qed

lemma recconfig_in_geometryD:
  assumes "recconfig_in_geometry s"
  obtains rc where "recconfig s = Inr rc" "distinct (map fst rc)"
    "set (map fst rc) = set (map col_key [0..num_cols s - 1])"
  using assms by (auto simp: recconfig_in_geometry_def split: sum.splits)

lemma words_unsharedD:
  assumes "words_unshared s" and "recconfig s = Inr rc"
  shows "distinct (map snd rc)" and "\<forall>kr \<in> set rc. snd kr < length (store s)"
  using assms by (auto simp: words_unshared_def list_all_iff)

lemma enable_ampout_col_core:
  assumes geo: "recconfig_in_geometry s" and own: "words_unshared s"
      and col: "0 \<le> col" "col < num_cols s"
  shows "\<exists>r s'. word_ref s (col_key col) = Some r
           \<and> s' = s\<lparr>store := ampout_store (column_refs s) r (store s)\<rparr>
           \<and> enable_ampout_col s col = (Returned (), s')
           \<and> recconfig_in_geometry s' \<and> words_unshared s' \<and> num_cols s' = num_cols s
           \<and> (\<forall>k f. col_word s k = Some f \<longrightarrow>
                 col_word s' k =
                   Some (fst f, if k = col_key col then (snd f AND ampout_keep) OR ampout_bit
                                else snd f AND ampout_keep))
           \<and> (\<forall>k. col_word s k = None \<longrightarrow> col_word s' k = None)
           \<and> enable_ampout_col s' col = (Returned (), s')"
proof -
  from geo obtain rc where rc: "recconfig s = Inr rc" and dist: "distinct (map fst rc)"
    and keys: "set (map fst rc) = set (map col_key [0..num_cols s - 1])"
    by (rule recconfig_in_geometryD)
  from words_unsharedD [OF own rc] have refs: "distinct (map snd rc)"
    and valid: "\<forall>kr \<in> set rc. snd kr < length (store s)" by blast+
  define R where "R = set (map snd rc)"
  have cr: "column_refs s = R" by (simp add: column_refs_def rc R_def)
  from enable_ampout_col_closed [OF rc dist keys col] obtain r
    where r: "map_of rc (col_key col) = Some r"
      and run0: "enable_ampout_col s col = (Returned (), s\<lparr>store := ampout_store R r (store s)\<rparr>)"
    by (auto simp: R_def)
  define s' where "s' = s\<lparr>store := ampout_store R r (store s)\<rparr>"
  from r have mem: "(col_key col, r) \<in> set rc" by (rule map_of_SomeD)
  with valid have rlen: "r < length (store s)" by force
  from mem have rR: "r \<in> R" by (force simp: R_def)
  have wr: "word_ref s (col_key col) = Some r" by (rule word_refI [OF rc r rlen])
  have rc': "recconfig s' = Inr rc" by (simp add: s'_def rc)
  have n': "num_cols s' = num_cols s" by (simp add: s'_def)
  have len': "length (store s') = length (store s)" by (simp add: s'_def)
  have geo': "recconfig_in_geometry s'"
    using dist keys by (simp add: recconfig_in_geometry_def rc' n')
  have own': "words_unshared s'"
    using refs valid by (simp add: words_unshared_def rc' len' list_all_iff)
  have ref_same: "\<And>k. word_ref s' k = word_ref s k"
    by (simp add: word_ref_def rc rc' len' split: option.splits)
  have words: "\<forall>k f. col_word s k = Some f \<longrightarrow>
                 col_word s' k =
                   Some (fst f, if k = col_key col then (snd f AND ampout_keep) OR ampout_bit
                                else snd f AND ampout_keep)"
  proof (intro allI impI)
    fix k f assume "col_word s k = Some f"
    then obtain rk where rk: "word_ref s k = Some rk" and f: "f = store s ! rk"
      by (auto simp: col_word_def)
    from rk obtain rc0 where "recconfig s = Inr rc0" and "map_of rc0 k = Some rk"
      and rklen: "rk < length (store s)" by (rule word_refD)
    with rc have mk: "map_of rc k = Some rk" by simp
    then have "(k, rk) \<in> set rc" by (rule map_of_SomeD)
    then have rkR: "rk \<in> R" by (force simp: R_def)
    have eq: "rk = r \<longleftrightarrow> k = col_key col"
    proof
      assume "rk = r"
      with mk have "map_of rc k = Some r" by simp
      from unshared_key_of_ref [OF refs this r] show "k = col_key col" .
    next
      assume "k = col_key col"
      with mk r show "rk = r" by simp
    qed
    have "col_word s' k = Some (store s' ! rk)"
      by (simp add: col_word_def ref_same rk)
    also have "store s' ! rk = ampout_store R r (store s) ! rk" by (simp add: s'_def)
    also have "\<dots> = (fst f, if k = col_key col then (snd f AND ampout_keep) OR ampout_bit
                                else snd f AND ampout_keep)"
      using rkR eq by (simp add: nth_ampout_store [OF rklen] f)
    finally show "col_word s' k =
                   Some (fst f, if k = col_key col then (snd f AND ampout_keep) OR ampout_bit
                                else snd f AND ampout_keep)" .
  qed
  have nones: "\<forall>k. col_word s k = None \<longrightarrow> col_word s' k = None"
    by (simp add: col_word_def ref_same)
  from enable_ampout_col_closed [OF rc' _ _ col(1)] dist keys col(2) r
  have "enable_ampout_col s' col
        = (Returned (), s'\<lparr>store := ampout_store R r (store s')\<rparr>)"
    by (auto simp: n' R_def)
  also have "s'\<lparr>store := ampout_store R r (store s')\<rparr> = s'"
    by (simp add: s'_def ampout_store_idem [OF rR])
  finally have again: "enable_ampout_col s' col = (Returned (), s')" .
  from wr run0 geo' own' n' words nones again show ?thesis
    unfolding s'_def cr by blast
qed

lemma mux_only_selected:
  assumes words: "\<forall>k f. col_word s k = Some f \<longrightarrow>
                 col_word s' k =
                   Some (fst f, if k = key then (snd f AND ampout_keep) OR ampout_bit
                                else snd f AND ampout_keep)"
      and nones: "\<forall>k. col_word s k = None \<longrightarrow> col_word s' k = None"
  shows "\<forall>k f. col_word s' k = Some f \<longrightarrow> (bit (snd f) 37 \<longleftrightarrow> k = key)"
proof (intro allI impI)
  fix k f assume f: "col_word s' k = Some f"
  with nones obtain f0 where f0: "col_word s k = Some f0"
    by (cases "col_word s k") auto
  from words [rule_format, OF f0] f
  have "f = (fst f0, if k = key then (snd f0 AND ampout_keep) OR ampout_bit
                     else snd f0 AND ampout_keep)"
    by simp
  then show "bit (snd f) 37 \<longleftrightarrow> k = key"
    by (simp add: bit37_set bit37_cleared)
qed

lemma enable_ampout_col_obs:
  assumes geo: "recconfig_in_geometry s" and own: "words_unshared s"
      and col: "0 \<le> col" "col < num_cols s"
  shows "\<exists>s'. enable_ampout_col s col = (Returned (), s')
           \<and> recconfig_in_geometry s' \<and> words_unshared s' \<and> num_cols s' = num_cols s
           \<and> (\<forall>k f. col_word s' k = Some f \<longrightarrow> (bit (snd f) 37 \<longleftrightarrow> k = col_key col))
           \<and> (\<exists>f. col_word s' (col_key col) = Some f \<and> bit (snd f) 37)"
proof -
  from enable_ampout_col_core [OF geo own col] obtain r s'
    where ref: "word_ref s (col_key col) = Some r"
      and run: "enable_ampout_col s col = (Returned (), s')"
      and inv: "recconfig_in_geometry s'" "words_unshared s'" "num_cols s' = num_cols s"
      and words: "\<forall>k f. col_word s k = Some f \<longrightarrow>
                 col_word s' k =
                   Some (fst f, if k = col_key col then (snd f AND ampout_keep) OR ampout_bit
                                else snd f AND ampout_keep)"
      and nones: "\<forall>k. col_word s k = None \<longrightarrow> col_word s' k = None"
    by blast
  from mux_only_selected [OF words nones]
  have only: "\<forall>k f. col_word s' k = Some f \<longrightarrow> (bit (snd f) 37 \<longleftrightarrow> k = col_key col)" .
  from ref have c0: "col_word s (col_key col) = Some (store s ! r)" by (simp add: col_word_def)
  from words [rule_format, OF c0] have "col_word s' (col_key col)
      = Some (fst (store s ! r), (snd (store s ! r) AND ampout_keep) OR ampout_bit)"
    by simp
  then have ex: "\<exists>f. col_word s' (col_key col) = Some f \<and> bit (snd f) 37"
    by (simp add: bit37_set)
  from run inv only ex show ?thesis by blast
qed

section \<open>Claims about the pixel operations\<close>

text \<open>
  C3, as the code has it. When the receiver block matches the geometry (its keys are
  exactly \<^verbatim>\<open>col0\<close> \<dots> \<^verbatim>\<open>col(num_cols - 1)\<close>), every column word is a list object of its
  own and \<open>0 \<le> col < num_cols\<close>, \<^verbatim>\<open>enable_ampout_col(col)\<close> returns, having changed nothing
  but the store: every column word keeps its width and its bits 0 to 36, loses the
  bits from 37 upwards, and the word of column \<open>col\<close> then has bit 37 set. So afterwards
  the word of column \<open>col\<close> exists with bit 37 set, and a column word has bit 37 set if
  and only if it is that word (by key, and by column index, since distinct indices have
  distinct keys); calling it again with the same column changes nothing; and calling
  it next for any other column of the geometry leaves bit 37 set on that column alone.
\<close>

theorem enable_ampout_col_single:
  assumes geo: "recconfig_in_geometry s" and own: "words_unshared s"
      and col: "0 \<le> col" "col < num_cols s"
  shows "\<exists>r s'. word_ref s (col_key col) = Some r
           \<and> s' = s\<lparr>store := ampout_store (column_refs s) r (store s)\<rparr>
           \<and> enable_ampout_col s col = (Returned (), s')
           \<and> (\<forall>k f. col_word s k = Some f \<longrightarrow>
                 col_word s' k =
                   Some (fst f, if k = col_key col then (snd f AND ampout_keep) OR ampout_bit
                                else snd f AND ampout_keep))
           \<and> (\<forall>k f. col_word s' k = Some f \<longrightarrow> (bit (snd f) 37 \<longleftrightarrow> k = col_key col))
           \<and> (\<exists>f. col_word s' (col_key col) = Some f \<and> bit (snd f) 37)
           \<and> (\<forall>i f. col_word s' (col_key i) = Some f \<longrightarrow> (bit (snd f) 37 \<longleftrightarrow> i = col))
           \<and> enable_ampout_col s' col = (Returned (), s')
           \<and> (\<forall>c2. 0 \<le> c2 \<and> c2 < num_cols s \<longrightarrow>
                 (\<exists>s''. enable_ampout_col s' c2 = (Returned (), s'')
                    \<and> (\<forall>k f. col_word s'' k = Some f \<longrightarrow>
                          (bit (snd f) 37 \<longleftrightarrow> k = col_key c2))
                    \<and> (\<exists>f. col_word s'' (col_key c2) = Some f \<and> bit (snd f) 37)))"
proof -
  from enable_ampout_col_core [OF geo own col] obtain r s'
    where ref: "word_ref s (col_key col) = Some r"
      and s': "s' = s\<lparr>store := ampout_store (column_refs s) r (store s)\<rparr>"
      and run: "enable_ampout_col s col = (Returned (), s')"
      and geo': "recconfig_in_geometry s'" and own': "words_unshared s'"
      and n': "num_cols s' = num_cols s"
      and words: "\<forall>k f. col_word s k = Some f \<longrightarrow>
                 col_word s' k =
                   Some (fst f, if k = col_key col then (snd f AND ampout_keep) OR ampout_bit
                                else snd f AND ampout_keep)"
      and nones: "\<forall>k. col_word s k = None \<longrightarrow> col_word s' k = None"
      and again: "enable_ampout_col s' col = (Returned (), s')"
    by blast
  from mux_only_selected [OF words nones]
  have only: "\<forall>k f. col_word s' k = Some f \<longrightarrow> (bit (snd f) 37 \<longleftrightarrow> k = col_key col)" .
  from only have by_index:
    "\<forall>i f. col_word s' (col_key i) = Some f \<longrightarrow> (bit (snd f) 37 \<longleftrightarrow> i = col)"
    using col_key_inj by blast
  from ref have c0: "col_word s (col_key col) = Some (store s ! r)" by (simp add: col_word_def)
  from words [rule_format, OF c0] have "col_word s' (col_key col)
      = Some (fst (store s ! r), (snd (store s ! r) AND ampout_keep) OR ampout_bit)"
    by simp
  then have ex: "\<exists>f. col_word s' (col_key col) = Some f \<and> bit (snd f) 37"
    by (simp add: bit37_set)
  have next_col: "\<forall>c2. 0 \<le> c2 \<and> c2 < num_cols s \<longrightarrow>
                 (\<exists>s''. enable_ampout_col s' c2 = (Returned (), s'')
                    \<and> (\<forall>k f. col_word s'' k = Some f \<longrightarrow>
                          (bit (snd f) 37 \<longleftrightarrow> k = col_key c2))
                    \<and> (\<exists>f. col_word s'' (col_key c2) = Some f \<and> bit (snd f) 37))"
  proof (intro allI impI)
    fix c2 assume c2: "0 \<le> c2 \<and> c2 < num_cols s"
    then have "0 \<le> c2" and "c2 < num_cols s'" by (simp_all add: n')
    from enable_ampout_col_obs [OF geo' own' this]
    show "\<exists>s''. enable_ampout_col s' c2 = (Returned (), s'')
                    \<and> (\<forall>k f. col_word s'' k = Some f \<longrightarrow>
                          (bit (snd f) 37 \<longleftrightarrow> k = col_key c2))
                    \<and> (\<exists>f. col_word s'' (col_key c2) = Some f \<and> bit (snd f) 37)"
      by blast
  qed
  from ref s' run words only ex by_index again next_col show ?thesis by blast
qed

text \<open>
  The instance of the spec: ten columns at their default word, each a list object of
  its own, column 5 selected and then column 9. Afterwards the word of column 9 has
  bit 37 set and that of column 5 has not.
\<close>

theorem enable_ampout_col_single_witness:
  "recconfig_in_geometry (ex_asic10 (- 1)) \<and> words_unshared (ex_asic10 (- 1))
   \<and> (0::int) \<le> 5 \<and> 5 < num_cols (ex_asic10 (- 1))
   \<and> (0::int) \<le> 9 \<and> 9 < num_cols (ex_asic10 (- 1))
   \<and> (\<exists>s' s''. enable_ampout_col (ex_asic10 (- 1)) 5 = (Returned (), s')
          \<and> enable_ampout_col s' 9 = (Returned (), s'')
          \<and> (\<forall>k f. col_word s'' k = Some f \<longrightarrow> (bit (snd f) 37 \<longleftrightarrow> k = col_key 9))
          \<and> (\<exists>f. col_word s'' (col_key 9) = Some f \<and> bit (snd f) 37))
   \<and> enable_ampout_col (ex_asic10 (- 1)) 5 = (Returned (), ex_asic10 5)
   \<and> enable_ampout_col (ex_asic10 5) 9 = (Returned (), ex_asic10 9)
   \<and> col_word (ex_asic10 9) (col_key 9) = Some (38, 206158430206)
   \<and> bit (206158430206::int) 37
   \<and> col_word (ex_asic10 9) (col_key 5) = Some (38, 68719476734)
   \<and> \<not> bit (68719476734::int) 37"
proof -
  have geo: "recconfig_in_geometry (ex_asic10 (- 1))" by code_simp
  have own: "words_unshared (ex_asic10 (- 1))" by code_simp
  have n: "num_cols (ex_asic10 (- 1)) = 10" by (simp add: ex_asic10_def fresh_asic_def)
  have c5: "(0::int) \<le> 5" "5 < num_cols (ex_asic10 (- 1))" by (simp_all add: n)
  have c9: "(0::int) \<le> 9 \<and> 9 < num_cols (ex_asic10 (- 1))" by (simp add: n)
  from enable_ampout_col_single [OF geo own c5] c9
  have seq: "\<exists>s' s''. enable_ampout_col (ex_asic10 (- 1)) 5 = (Returned (), s')
          \<and> enable_ampout_col s' 9 = (Returned (), s'')
          \<and> (\<forall>k f. col_word s'' k = Some f \<longrightarrow> (bit (snd f) 37 \<longleftrightarrow> k = col_key 9))
          \<and> (\<exists>f. col_word s'' (col_key 9) = Some f \<and> bit (snd f) 37)"
    by blast
  have e1: "enable_ampout_col (ex_asic10 (- 1)) 5 = (Returned (), ex_asic10 5)" by code_simp
  have e2: "enable_ampout_col (ex_asic10 5) 9 = (Returned (), ex_asic10 9)" by code_simp
  have w9: "col_word (ex_asic10 9) (col_key 9) = Some (38, 206158430206)" by code_simp
  have w5: "col_word (ex_asic10 9) (col_key 5) = Some (38, 68719476734)" by code_simp
  have b9: "bit (206158430206::int) 37" by simp
  have b5: "\<not> bit (68719476734::int) 37" by simp
  from geo own c5 c9 seq e1 e2 w9 w5 b9 b5 show ?thesis by blast
qed

text \<open>
  C3 as stated fails in two ways. First, the assignment writes into the list object:
  when \<^verbatim>\<open>col1\<close> is an alias of \<^verbatim>\<open>col0\<close> in the YAML file the two keys hold one object, and
  selecting column 0 of this two-column geometry leaves bit 37 set in the word of
  \<^verbatim>\<open>col0\<close> and in the word of \<^verbatim>\<open>col1\<close>. Second, a column word may exist beyond the
  geometry: with \<^verbatim>\<open>num_cols = 2\<close> and the unshared words \<^verbatim>\<open>col0\<close>, \<^verbatim>\<open>col1\<close>, \<^verbatim>\<open>col2\<close>, selecting
  column 2 and then column 0 returns both times and leaves bit 37 set on \<^verbatim>\<open>col0\<close> and on
  \<^verbatim>\<open>col2\<close>, because the loop over \<^verbatim>\<open>range(self.num_cols)\<close> never reaches \<^verbatim>\<open>col2\<close>.
\<close>

theorem enable_ampout_col_two_selected:
  "recconfig_in_geometry (ex_shared 68719476734)
   \<and> col_word (ex_shared 68719476734) (col_key 0) = Some (38, 68719476734)
   \<and> enable_ampout_col (ex_shared 68719476734) 0 = (Returned (), ex_shared 206158430206)
   \<and> col_word (ex_shared 206158430206) (col_key 0) = Some (38, 206158430206)
   \<and> col_word (ex_shared 206158430206) (col_key 1) = Some (38, 206158430206)
   \<and> col_key 0 \<noteq> col_key 1
   \<and> enable_ampout_col (ex_asic_cols 2 68719476734 68719476734 68719476734) 2
     = (Returned (), ex_asic_cols 2 68719476734 68719476734 206158430206)
   \<and> enable_ampout_col (ex_asic_cols 2 68719476734 68719476734 206158430206) 0
     = (Returned (), ex_asic_cols 2 206158430206 68719476734 206158430206)
   \<and> col_word (ex_asic_cols 2 206158430206 68719476734 206158430206) (col_key 0)
     = Some (38, 206158430206)
   \<and> col_word (ex_asic_cols 2 206158430206 68719476734 206158430206) (col_key 2)
     = Some (38, 206158430206)
   \<and> col_key 0 \<noteq> col_key 2
   \<and> bit (206158430206::int) 37"
  by code_simp

text \<open>
  C4, as the code has it. For a column word that exists, with value \<open>v\<close>, and
  \<open>0 \<le> row < num_rows\<close>, \<open>col < num_cols\<close>: \<^verbatim>\<open>get_pixel\<close> answers whether bit \<open>row + 1\<close> of the
  word is clear; \<^verbatim>\<open>enable_pixel\<close> returns having cleared that bit and nothing else, and
  \<^verbatim>\<open>get_pixel\<close> then answers true; \<^verbatim>\<open>disable_pixel\<close>, from the state before as from the
  state after \<^verbatim>\<open>enable_pixel\<close>, returns having set that bit and nothing else, and
  \<^verbatim>\<open>get_pixel\<close> then answers false. So after \<^verbatim>\<open>enable_pixel\<close> and \<^verbatim>\<open>disable_pixel\<close> the column
  word is \<open>v\<close> with bit \<open>row + 1\<close> set, and the whole model is as it was before exactly
  when the pixel was disabled (bit \<open>row + 1\<close> set) to begin with.
\<close>

theorem enable_disable_pixel:
  assumes ref: "word_ref s (col_key col) = Some r" and word: "store s ! r = (w, v)"
      and row: "0 \<le> row" "row < num_rows s" and col: "col < num_cols s"
  shows "get_pixel s col row = (Returned (Some (\<not> bit v (nat (row + 1)))), s)
         \<and> enable_pixel s col row
             = (Returned (), set_word s r (v AND NOT (2 ^ nat (row + 1))))
         \<and> col_word (set_word s r (v AND NOT (2 ^ nat (row + 1)))) (col_key col)
             = Some (w, v AND NOT (2 ^ nat (row + 1)))
         \<and> get_pixel (set_word s r (v AND NOT (2 ^ nat (row + 1)))) col row
             = (Returned (Some True), set_word s r (v AND NOT (2 ^ nat (row + 1))))
         \<and> disable_pixel s col row = (Returned (), set_word s r (v OR 2 ^ nat (row + 1)))
         \<and> disable_pixel (set_word s r (v AND NOT (2 ^ nat (row + 1)))) col row
             = (Returned (), set_word s r (v OR 2 ^ nat (row + 1)))
         \<and> col_word (set_word s r (v OR 2 ^ nat (row + 1))) (col_key col)
             = Some (w, v OR 2 ^ nat (row + 1))
         \<and> get_pixel (set_word s r (v OR 2 ^ nat (row + 1))) col row
             = (Returned (Some False), set_word s r (v OR 2 ^ nat (row + 1)))
         \<and> (bit v (nat (row + 1)) \<longrightarrow> set_word s r (v OR 2 ^ nat (row + 1)) = s)
         \<and> (\<not> bit v (nat (row + 1)) \<longrightarrow> set_word s r (v OR 2 ^ nat (row + 1)) \<noteq> s)"
proof -
  let ?m = "2 ^ nat (row + 1) :: int"
  let ?s1 = "set_word s r (v AND NOT ?m)"
  let ?s2 = "set_word s r (v OR ?m)"
  from ref have rlen: "r < length (store s)" by (rule word_refD)
  from word have v: "snd (store s ! r) = v" and w: "fst (store s ! r) = w" by simp_all
  have ref1: "word_ref ?s1 (col_key col) = Some r" and ref2: "word_ref ?s2 (col_key col) = Some r"
    using ref by simp_all
  have v1: "snd (store ?s1 ! r) = v AND NOT ?m" and v2: "snd (store ?s2 ! r) = v OR ?m"
    by (simp_all add: store_set_word [OF rlen])
  have g0: "get_pixel s col row = (Returned (Some (\<not> bit v (nat (row + 1)))), s)"
    using get_pixel_ref [OF ref row] by (simp add: v)
  have e: "enable_pixel s col row = (Returned (), ?s1)"
    using enable_pixel_ref [OF ref row col] by (simp add: v)
  have w1: "col_word ?s1 (col_key col) = Some (w, v AND NOT ?m)"
    using col_word_set_word [OF ref] by (simp add: w)
  have g1: "get_pixel ?s1 col row = (Returned (Some True), ?s1)"
    using get_pixel_ref [OF ref1] row by (simp add: v1 bit_simps)
  have d0: "disable_pixel s col row = (Returned (), ?s2)"
    using disable_pixel_ref [OF ref row col] by (simp add: v)
  have d1: "disable_pixel ?s1 col row = (Returned (), ?s2)"
    using disable_pixel_ref [OF ref1] row col
    by (simp add: v1 set_word_twice clear_then_set)
  have w2: "col_word ?s2 (col_key col) = Some (w, v OR ?m)"
    using col_word_set_word [OF ref] by (simp add: w)
  have g2: "get_pixel ?s2 col row = (Returned (Some False), ?s2)"
    using get_pixel_ref [OF ref2] row by (simp add: v2 bit_simps)
  have r1: "bit v (nat (row + 1)) \<longrightarrow> ?s2 = s"
    using set_word_same [of s r "v OR ?m"] by (simp add: v set_bit_id)
  have r2: "\<not> bit v (nat (row + 1)) \<longrightarrow> ?s2 \<noteq> s"
  proof
    assume nb: "\<not> bit v (nat (row + 1))"
    show "?s2 \<noteq> s"
    proof
      assume "?s2 = s"
      then have "snd (store ?s2 ! r) = snd (store s ! r)" by simp
      then have "v OR ?m = v" by (simp add: v v2)
      then have "bit (v OR ?m) (nat (row + 1)) = bit v (nat (row + 1))" by simp
      with nb show False by (simp add: bit_simps)
    qed
  qed
  from g0 e w1 g1 d0 d1 w2 g2 r1 r2 show ?thesis by blast
qed

text \<open>
  At the pixel of column 1, row 3 of the example, disabled in the default word:
  enabling and then disabling it gives the example back.
\<close>

theorem enable_disable_pixel_witness:
  "word_ref ex_asic (col_key 1) = Some 11 \<and> store ex_asic ! 11 = (38, 68719476734)
   \<and> (0::int) \<le> 3 \<and> 3 < num_rows ex_asic \<and> 1 < num_cols ex_asic
   \<and> bit (68719476734::int) (nat (3 + 1))
   \<and> (\<exists>s1. enable_pixel ex_asic 1 3 = (Returned (), s1)
          \<and> get_pixel s1 1 3 = (Returned (Some True), s1)
          \<and> disable_pixel s1 1 3 = (Returned (), ex_asic)
          \<and> get_pixel ex_asic 1 3 = (Returned (Some False), ex_asic)
          \<and> disable_pixel ex_asic 1 3 = (Returned (), ex_asic))"
proof -
  have f: "word_ref ex_asic (col_key 1) = Some 11" by code_simp
  have w: "store ex_asic ! 11 = (38, 68719476734)" by code_simp
  have r: "(0::int) \<le> 3" "3 < num_rows ex_asic"
    by (simp_all add: ex_asic_def ex_asic_cols_def fresh_asic_def)
  have c: "1 < num_cols ex_asic" by (simp add: ex_asic_def ex_asic_cols_def fresh_asic_def)
  have b: "bit (68719476734::int) (nat (3 + 1))" by simp
  from enable_disable_pixel [OF f w r c] b
  have "set_word ex_asic 11 (68719476734 OR 2 ^ nat (3 + 1)) = ex_asic" by blast
  with enable_disable_pixel [OF f w r c] b f w r c show ?thesis by auto
qed

text \<open>
  C4 as stated fails for a pixel that is already enabled: with bit 1 of \<^verbatim>\<open>col0\<close> clear
  (word \<open>68719476732\<close>), \<^verbatim>\<open>enable_pixel(0, 0)\<close> changes nothing and \<^verbatim>\<open>disable_pixel(0, 0)\<close>
  then sets the bit: the word ends as \<open>68719476734\<close>, not as it was.
\<close>

theorem enable_disable_pixel_not_restored:
  "col_word (ex_asic_cols 3 68719476732 68719476734 68719476734) (col_key 0)
     = Some (38, 68719476732)
   \<and> enable_pixel (ex_asic_cols 3 68719476732 68719476734 68719476734) 0 0
     = (Returned (), ex_asic_cols 3 68719476732 68719476734 68719476734)
   \<and> disable_pixel (ex_asic_cols 3 68719476732 68719476734 68719476734) 0 0
     = (Returned (), ex_asic_cols 3 68719476734 68719476734 68719476734)
   \<and> col_word (ex_asic_cols 3 68719476734 68719476734 68719476734) (col_key 0)
     = Some (38, 68719476734)
   \<and> (68719476734::int) \<noteq> 68719476732"
  by code_simp

text \<open>
  C5, as the code has it. With \<open>row \<ge> num_rows\<close> or \<open>col \<ge> num_cols\<close>, \<^verbatim>\<open>enable_pixel\<close> and
  \<^verbatim>\<open>disable_pixel\<close> return and leave the whole model, the log included, as it was; so do
  \<^verbatim>\<open>enable_inj_row\<close>, \<^verbatim>\<open>disable_inj_row\<close> and \<^verbatim>\<open>get_pixel\<close> (which answers \<^verbatim>\<open>None\<close>) with
  \<open>row \<ge> num_rows\<close>, and \<^verbatim>\<open>enable_inj_col\<close> and \<^verbatim>\<open>disable_inj_col\<close> with \<open>col \<ge> num_cols\<close>.
  No warning is recorded.
\<close>

theorem out_of_range_noop:
  "(num_rows s \<le> row \<or> num_cols s \<le> col \<longrightarrow>
      enable_pixel s col row = (Returned (), s) \<and> disable_pixel s col row = (Returned (), s))
   \<and> (num_rows s \<le> row \<longrightarrow>
      enable_inj_row s row = (Returned (), s) \<and> disable_inj_row s row = (Returned (), s)
      \<and> get_pixel s col row = (Returned None, s))
   \<and> (num_cols s \<le> col \<longrightarrow>
      enable_inj_col s col = (Returned (), s) \<and> disable_inj_col s col = (Returned (), s))"
  by (auto simp add: enable_pixel_def disable_pixel_def enable_inj_row_def disable_inj_row_def
      enable_inj_col_def disable_inj_col_def get_pixel_def)

theorem out_of_range_noop_witness:
  "num_rows ex_asic \<le> 35 \<and> num_cols ex_asic \<le> 3
   \<and> enable_pixel ex_asic 3 35 = (Returned (), ex_asic)
   \<and> disable_pixel ex_asic 3 35 = (Returned (), ex_asic)
   \<and> enable_inj_row ex_asic 35 = (Returned (), ex_asic)
   \<and> disable_inj_row ex_asic 35 = (Returned (), ex_asic)
   \<and> get_pixel ex_asic 3 35 = (Returned None, ex_asic)
   \<and> enable_inj_col ex_asic 3 = (Returned (), ex_asic)
   \<and> disable_inj_col ex_asic 3 = (Returned (), ex_asic)
   \<and> logged ex_asic = []"
proof -
  have r: "num_rows ex_asic \<le> 35" and c: "num_cols ex_asic \<le> 3"
    and l: "logged ex_asic = []"
    by (simp_all add: ex_asic_def ex_asic_cols_def fresh_asic_def)
  from out_of_range_noop [of ex_asic 35 3] r c l show ?thesis by blast
qed

text \<open>
  C5 as stated fails. \<^verbatim>\<open>enable_ampout_col\<close> has no bounds check: for \<open>col = num_cols\<close> it
  first clears bit 37 of every column (here of \<^verbatim>\<open>col1\<close>, which had it set) and then
  raises \<^verbatim>\<open>KeyError\<close> on the missing word. \<^verbatim>\<open>get_pixel\<close> checks the row only: for
  \<open>col = num_cols\<close> and a valid row it raises \<^verbatim>\<open>TypeError\<close>. And where an operation is a
  no-op, as \<^verbatim>\<open>enable_pixel\<close> for \<open>row = num_rows\<close>, it records nothing.
\<close>

theorem out_of_range_raises:
  "num_cols (ex_asic_cols 3 68719476734 206158430206 68719476734) \<le> 3
   \<and> enable_ampout_col (ex_asic_cols 3 68719476734 206158430206 68719476734) 3
     = (Raised KeyError, ex_asic_cols 3 68719476734 68719476734 68719476734)
   \<and> ex_asic_cols 3 68719476734 68719476734 68719476734
     \<noteq> ex_asic_cols 3 68719476734 206158430206 68719476734
   \<and> num_cols ex_asic \<le> 3 \<and> 0 < num_rows ex_asic
   \<and> get_pixel ex_asic 3 0 = (Raised TypeError, ex_asic)
   \<and> num_rows ex_asic \<le> 35
   \<and> enable_pixel ex_asic 0 35 = (Returned (), ex_asic)
   \<and> logged ex_asic = []"
  by code_simp

text \<open>
  C10. For \<open>row \<ge> num_rows\<close> and any column, \<^verbatim>\<open>get_pixel\<close> raises nothing, returns
  \<^verbatim>\<open>None\<close> rather than a boolean, and leaves the model unchanged.
\<close>

theorem get_pixel_row_out_of_range:
  "num_rows s \<le> row \<Longrightarrow> get_pixel s col row = (Returned None, s)"
  by (simp add: get_pixel_def)

theorem get_pixel_row_out_of_range_witness:
  "num_rows ex_asic \<le> 40 \<and> get_pixel ex_asic 7 40 = (Returned None, ex_asic)"
proof -
  have r: "num_rows ex_asic \<le> 40" by (simp add: ex_asic_def ex_asic_cols_def fresh_asic_def)
  from get_pixel_row_out_of_range [OF r, of 7] r show ?thesis by blast
qed

section \<open>Claims about run control\<close>

lemma update_asic_config_not_started:
  "\<not> asic_start r \<Longrightarrow>
   update_asic_config r bias_cfg idac_cfg vdac_cfg = (Raised RuntimeError, r)"
  by (simp add: update_asic_config_def)

lemma update_asic_config_without_vdac:
  assumes "asic_start r"
      and "update_asic_config r bias_cfg idac_cfg None = (Returned (), r')"
  shows "events r' =
         events r @ [Log (LogInfo ''update_asic_config() got no arguments, nothing to do.'')]"
  using assms
  by (auto simp: update_asic_config_def emit_def split: prod.splits option.splits)

lemma update_asic_config_with_vdac:
  assumes "asic_start r"
      and "update_asic_config r bias_cfg idac_cfg (Some kvs) = (Returned (), r')"
  shows "events r' = events r @ [ChipReset, AsicUpdate (run_config r')]"
  using assms
  by (auto simp: update_asic_config_def asic_update_def emit_def
      split: prod.splits option.splits)

text \<open>
  C6 at a bias-only update of an initialized session. The value is written into the
  \<^verbatim>\<open>biasconfig\<close> block, but because \<^verbatim>\<open>vdac_cfg\<close> is \<^verbatim>\<open>None\<close> the method takes the \<^verbatim>\<open>else\<close>
  branch: it logs that it got no arguments and returns. The events hold no chip reset
  and no update of the ASIC: nothing is pushed.
\<close>

theorem update_asic_config_bias_only:
  "update_asic_config (ex_run True ex_config []) (Some [(''DisHiDR'', 1)]) None None
   = (Returned (),
      ex_run True (ex_blocks 1 0 20 (ex_cols 68719476734 68719476734 68719476734))
        [Log (LogInfo ''update_asic_config() got no arguments, nothing to do.'')])"
  by code_simp

text \<open>
  C8 at a \<^verbatim>\<open>dac_setup\<close> with two keys of the \<^verbatim>\<open>idacs\<close> block, \<^verbatim>\<open>blres\<close> and \<^verbatim>\<open>vn1\<close>. Each key
  replaces \<^verbatim>\<open>idac_setup\<close> by a one-entry dictionary, so only the last one reaches
  \<^verbatim>\<open>update_asic_config\<close>: \<^verbatim>\<open>vn1\<close> becomes 10 and \<^verbatim>\<open>blres\<close> keeps its loaded value 0 instead of
  the 5 that was asked for.
\<close>

theorem asic_init_two_idacs:
  "asic_init (ex_run False [] []) ex_config (Some [(''blres'', 5), (''vn1'', 10)]) None
   = (Returned (),
      ex_run True (ex_blocks 0 0 10 (ex_cols 68719476734 68719476734 68719476734))
        [Log (LogInfo ''update_asic_config() got no arguments, nothing to do.''),
         Log (LogInfo ''LOADING TO ASIC...''),
         ChipReset,
         AsicUpdate (ex_blocks 0 0 10 (ex_cols 68719476734 68719476734 68719476734)),
         Log (LogInfo ''ASIC SUCCESSFULLY CONFIGURED'')])"
  by code_simp

text \<open>
  The part of C8 about a key of neither block holds: the warning is logged and
  \<^verbatim>\<open>asic_init\<close> returns at once, with the loaded configuration untouched.
\<close>

lemma asic_init_bad_key:
  "asic_init (ex_run False [] []) ex_config (Some [(''blres'', 5), (''bogus'', 1)]) None
   = (Returned (),
      ex_run True ex_config [Log (LogWarningBadDAC [(''blres'', 5), (''bogus'', 1)])])"
  by code_simp

text \<open>
  C9, as the code has it. The self-test writes \<open>0x55 = 85\<close> to register 9, reads the
  register and resets the readout. It either returns or raises \<^verbatim>\<open>RuntimeError\<close>; it
  returns exactly when each of the four calls returns; and its outcome and the hardware
  state it leaves do not depend on the bytes that \<^verbatim>\<open>read_register\<close> returns: replacing
  them by any function \<open>g\<close> of them changes nothing.
\<close>

theorem test_io_ignores_read_value:
  "(fst (test_io nx h) = Returned () \<or> fst (test_io nx h) = Raised RuntimeError)
   \<and> (fst (test_io nx h) = Returned ()) =
       (\<exists>h1 bytes h2 h3 h4.
          write_register nx 9 85 True h = (Returned (), h1)
          \<and> read_register nx 9 h1 = (Returned bytes, h2)
          \<and> spi_reset_fpga_readout nx h2 = (Returned (), h3)
          \<and> sr_readback_reset nx h3 = (Returned (), h4))
   \<and> test_io (nx\<lparr>read_register :=
                   (\<lambda>reg h'. case read_register nx reg h' of
                                (Returned bytes, h2) \<Rightarrow> (Returned (g bytes), h2)
                              | (Raised e, h2) \<Rightarrow> (Raised e, h2))\<rparr>) h
       = test_io nx h"
proof (intro conjI)
  show "fst (test_io nx h) = Returned () \<or> fst (test_io nx h) = Raised RuntimeError"
    by (auto simp: test_io_def split: prod.splits outcome.splits)
  show "(fst (test_io nx h) = Returned ()) =
       (\<exists>h1 bytes h2 h3 h4.
          write_register nx 9 85 True h = (Returned (), h1)
          \<and> read_register nx 9 h1 = (Returned bytes, h2)
          \<and> spi_reset_fpga_readout nx h2 = (Returned (), h3)
          \<and> sr_readback_reset nx h3 = (Returned (), h4))"
    by (auto simp: test_io_def split: prod.splits outcome.splits)
  show "test_io (nx\<lparr>read_register :=
                   (\<lambda>reg h'. case read_register nx reg h' of
                                (Returned bytes, h2) \<Rightarrow> (Returned (g bytes), h2)
                              | (Raised e, h2) \<Rightarrow> (Raised e, h2))\<rparr>) h
       = test_io nx h"
    by (auto simp: test_io_def split: prod.splits outcome.splits)
qed

text \<open>
  C9 as stated fails. On a link that loses writes, the register reads back as \<open>0\<close>
  after \<open>0x55 = 85\<close> has been written to it, and the self-test returns normally.
\<close>

theorem test_io_mismatch_undetected:
  "write_register ex_nexys 9 85 True 0 = (Returned (), 0)
   \<and> read_register ex_nexys 9 0 = (Returned [0], 0)
   \<and> [0::int] \<noteq> [85]
   \<and> test_io ex_nexys 0 = (Returned (), 0)"
  by (simp add: test_io_def ex_nexys_def)

end
